theory Spec2Isabelle
  imports Complex_Main "HOL-Library.Char_ord" "HOL-Library.List_Lexorder"
begin

section \<open>Python values and exceptions\<close>

text \<open>
  The script \<^verbatim>\<open>simbad_batch.py\<close> is Python 2 (its first line asks for \<^verbatim>\<open>python2\<close>).
  Strings are modelled as \<^typ>\<open>string\<close>, one \<^typ>\<open>char\<close> per character, with the
  character classes of Python 2: \<^verbatim>\<open>\w\<close> and \<^verbatim>\<open>\d\<close> of a pattern compiled without
  the UNICODE flag are ASCII only, and so are \<^verbatim>\<open>str.capitalize\<close>, \<^verbatim>\<open>str.split\<close> and
  \<^verbatim>\<open>str.strip\<close>.

  Every exception the code can raise is a value of \<open>error\<close>. \<open>RemoteError\<close> stands for
  whatever the network libraries raise (the script catches nothing).
\<close>

datatype error = IndexError | AttributeError | TypeError | UnicodeDecodeError | RemoteError

section \<open>String methods\<close>

definition ascii_uppercase :: string where
  "ascii_uppercase = ''ABCDEFGHIJKLMNOPQRSTUVWXYZ''"

definition ascii_lowercase :: string where
  "ascii_lowercase = ''abcdefghijklmnopqrstuvwxyz''"

definition digits :: string where
  "digits = ''0123456789''"

definition whitespace :: string where
  "whitespace = [CHR '' '', CHR 0x09, CHR 0x0A, CHR 0x0B, CHR 0x0C, CHR 0x0D]"

definition isupper :: "char \<Rightarrow> bool" where
  "isupper c = (c \<in> set ascii_uppercase)"

definition islower :: "char \<Rightarrow> bool" where
  "islower c = (c \<in> set ascii_lowercase)"

definition isdigit :: "char \<Rightarrow> bool" where
  "isdigit c = (c \<in> set digits)"

definition isspace :: "char \<Rightarrow> bool" where
  "isspace c = (c \<in> set whitespace)"

definition lower :: "char \<Rightarrow> char" where
  "lower c = (case map_of (zip ascii_uppercase ascii_lowercase) c of None \<Rightarrow> c | Some d \<Rightarrow> d)"

definition upper :: "char \<Rightarrow> char" where
  "upper c = (case map_of (zip ascii_lowercase ascii_uppercase) c of None \<Rightarrow> c | Some d \<Rightarrow> d)"

text \<open>The bytes that the ASCII codec decodes: those below 0x80.\<close>

definition isascii :: "char \<Rightarrow> bool" where
  "isascii c = (of_char c < (128 :: nat))"

text \<open>\<^verbatim>\<open>s.capitalize()\<close>: the first character upper-cased, all the others lower-cased.\<close>

fun capitalize :: "string \<Rightarrow> string" where
  "capitalize [] = []"
| "capitalize (c # cs) = upper c # map lower cs"

text \<open>\<^verbatim>\<open>s.strip()\<close> and \<^verbatim>\<open>s.strip(chars)\<close>.\<close>

definition strip_chars :: "string \<Rightarrow> string \<Rightarrow> string" where
  "strip_chars chars s =
     rev (dropWhile (\<lambda>c. c \<in> set chars) (rev (dropWhile (\<lambda>c. c \<in> set chars) s)))"

definition strip :: "string \<Rightarrow> string" where
  "strip s = strip_chars whitespace s"

text \<open>
  \<^verbatim>\<open>s.splitlines()\<close> of a Python 2 \<^verbatim>\<open>str\<close>: a line ends at \<^verbatim>\<open>\n\<close>, \<^verbatim>\<open>\r\<close> or
  \<^verbatim>\<open>\r\n\<close>, the line ends are dropped, and a final line end opens no empty line.
  \<open>acc\<close> is the current line, reversed.
\<close>

fun splitlines_aux :: "string \<Rightarrow> string \<Rightarrow> string list" where
  "splitlines_aux acc [] = (if acc = [] then [] else [rev acc])"
| "splitlines_aux acc [c] =
     (if c = CHR 0x0D \<or> c = CHR 0x0A then [rev acc] else [rev (c # acc)])"
| "splitlines_aux acc (c # d # cs) =
     (if c = CHR 0x0D \<and> d = CHR 0x0A then rev acc # splitlines_aux [] cs
      else if c = CHR 0x0D \<or> c = CHR 0x0A then rev acc # splitlines_aux [] (d # cs)
      else splitlines_aux (c # acc) (d # cs))"

definition splitlines :: "string \<Rightarrow> string list" where
  "splitlines s = splitlines_aux [] s"

text \<open>
  \<^verbatim>\<open>s.split()\<close>: the maximal runs of characters that are not whitespace; never an
  empty string among them.
\<close>

fun split_ws_aux :: "string \<Rightarrow> string \<Rightarrow> string list" where
  "split_ws_aux acc [] = (if acc = [] then [] else [rev acc])"
| "split_ws_aux acc (c # cs) =
     (if isspace c then (if acc = [] then split_ws_aux [] cs else rev acc # split_ws_aux [] cs)
      else split_ws_aux (c # acc) cs)"

definition split_ws :: "string \<Rightarrow> string list" where
  "split_ws s = split_ws_aux [] s"

text \<open>
  \<^verbatim>\<open>s.split(sep)\<close> for a separator that is not empty (the script's separators are
  the literals \<^verbatim>\<open>','\<close>, \<^verbatim>\<open>'-'\<close> and \<^verbatim>\<open>'?bibcode='\<close>): the pieces between the
  occurrences of \<open>sep\<close>, found from the left and not overlapping.
\<close>

fun split_aux :: "string \<Rightarrow> string \<Rightarrow> string \<Rightarrow> string list" where
  "split_aux sep acc [] = [rev acc]"
| "split_aux sep acc (c # cs) =
     (if sep \<noteq> [] \<and> take (length sep) (c # cs) = sep
      then rev acc # split_aux sep [] (drop (length sep) (c # cs))
      else split_aux sep (c # acc) cs)"

definition split :: "string \<Rightarrow> string \<Rightarrow> string list" where
  "split sep s = split_aux sep [] s"

text \<open>\<^verbatim>\<open>sep.join(xs)\<close>.\<close>

fun join :: "string \<Rightarrow> string list \<Rightarrow> string" where
  "join sep [] = []"
| "join sep [x] = x"
| "join sep (x # y # ys) = x @ sep @ join sep (y # ys)"

text \<open>\<^verbatim>\<open>sub in s\<close>: \<open>sub\<close> occurs in \<open>s\<close>.\<close>

fun contains :: "string \<Rightarrow> string \<Rightarrow> bool" where
  "contains sub [] = (sub = [])"
| "contains sub (c # cs) = (take (length sub) (c # cs) = sub \<or> contains sub cs)"

text \<open>
  \<^verbatim>\<open>s.replace(old, new)\<close> for an \<open>old\<close> that is not empty (the script's is the literal
  \<^verbatim>\<open>'Ref'\<close>): every occurrence, found from the left and not overlapping.
\<close>

fun replace :: "string \<Rightarrow> string \<Rightarrow> string \<Rightarrow> string" where
  "replace old new [] = []"
| "replace old new (c # cs) =
     (if old \<noteq> [] \<and> take (length old) (c # cs) = old
      then new @ replace old new (drop (length old) (c # cs))
      else c # replace old new cs)"

section \<open>The two regular expressions\<close>

text \<open>
  \<^verbatim>\<open>re.findall('\((\d{4})\)', s)\<close>: the pattern has one group, so the result lists the
  four digits of every match. A match is six characters long and the search goes on
  behind it.
\<close>

fun re_findall_year :: "string \<Rightarrow> string list" where
  "re_findall_year [] = []"
| "re_findall_year (c # cs) =
     (if c = CHR ''('' \<and> 5 \<le> length cs \<and> list_all isdigit (take 4 cs) \<and> cs ! 4 = CHR '')''
      then take 4 cs # re_findall_year (drop 5 cs)
      else re_findall_year cs)"

section \<open>query\_reference: the parsing of the response\<close>

text \<open>
  Lines 78 to 100 of \<^verbatim>\<open>simbad_batch.py\<close>, from \<open>text\<close>, the value of
  \<^verbatim>\<open>str(result_table[0])\<close>. The statements run in the source's order: \<^verbatim>\<open>data[4]\<close>,
  \<^verbatim>\<open>authors_line.split()[0]\<close>, \<^verbatim>\<open>name.split('-')\<close>, then \<^verbatim>\<open>data[3]\<close> and
  \<^verbatim>\<open>re.findall(...)[0]\<close>; each of the three subscripts raises IndexError out of range.

  The script is a Python 2 script (line 1) and \<open>text\<close> is a byte string, while the
  literals of the script are unicode strings (line 6 imports \<^verbatim>\<open>unicode_literals\<close>). So
  \<^verbatim>\<open>name.split('-')\<close> first decodes \<open>name\<close> with the ASCII codec, and raises
  UnicodeDecodeError when \<open>name\<close> has a byte of 0x80 or more. The other steps take the
  bytes as they are: \<^verbatim>\<open>strip\<close>, \<^verbatim>\<open>splitlines\<close> and \<^verbatim>\<open>split()\<close> are methods of the
  byte string, the pattern is matched on the bytes, and the year that is appended is made
  of digits.
\<close>

definition parse_reference :: "string \<Rightarrow> error + string" where
  "parse_reference text =
     (let data = splitlines (strip text) in
      if length data \<le> 4 then Inl IndexError
      else
        let authors_line = data ! 4 in
        case split_ws authors_line of
          [] \<Rightarrow> Inl IndexError
        | name # _ \<Rightarrow>
            if \<not> list_all isascii name then Inl UnicodeDecodeError
            else
              let first_author = join ''-'' (map capitalize (split ''-'' name));
                  year_line = data ! 3
              in (case re_findall_year year_line of
                    [] \<Rightarrow> Inl IndexError
                  | year # _ \<Rightarrow> Inr (first_author @ drop (length year - 2) year)))"

text \<open>The response that the comment of \<^verbatim>\<open>query_reference\<close> quotes, for 1999AJ....118..983R.\<close>

definition response_Reipurth :: string where
  "response_Reipurth =
     join [CHR 0x0A]
       [''References'',
        ''----------------------------'',
        ''1999AJ....118..983R = DOI 10.1086/300958  --  ?'',
        ''Astron. J., 118, 983-989 (1999)'',
        ''REIPURTH B., RODRIGUEZ L.F. and CHINI R.'',
        ''VLA detection of protostars in OMC-2/3.'',
        ''Flags: Table 1: <[RRC99] VLA NN> (Nos 1-14).'',
        ''Files: (abstract)'']"

text \<open>
  \<^verbatim>\<open>regexp = '{[\w.]+}'\<close>, matched at the start of \<open>s\<close>: an opening brace, the longest run
  of word characters and dots, a closing brace. The run is greedy, and a shorter run
  cannot help, because the closing brace is itself no character of the class. The result
  is the matched text, \<^verbatim>\<open>matchobj.group(0)\<close>.
\<close>

definition isword :: "char \<Rightarrow> bool" where
  "isword c = (c \<in> set (ascii_lowercase @ ascii_uppercase @ digits @ ''_''))"

definition regexp_match :: "string \<Rightarrow> string option" where
  "regexp_match s =
     (case s of
        [] \<Rightarrow> None
      | c # cs \<Rightarrow>
          if c \<noteq> CHR ''{'' then None
          else
            let run = takeWhile (\<lambda>x. isword x \<or> x = CHR ''.'') cs;
                rest = dropWhile (\<lambda>x. isword x \<or> x = CHR ''.'') cs
            in if run = [] then None
               else (case rest of
                       [] \<Rightarrow> None
                     | d # _ \<Rightarrow> if d = CHR ''}'' then Some (c # run @ [d]) else None))"

lemma regexp_match_length: "regexp_match s = Some m \<Longrightarrow> 3 \<le> length m \<and> length m \<le> length s"
proof -
  assume a: "regexp_match s = Some m"
  then obtain c cs where s: "s = c # cs"
    by (cases s) (auto simp: regexp_match_def)
  let ?P = "\<lambda>x. isword x \<or> x = CHR ''.''"
  from a s obtain d ds where r: "dropWhile ?P cs = d # ds" and m: "m = c # takeWhile ?P cs @ [d]"
    and ne: "takeWhile ?P cs \<noteq> []"
    by (auto simp: regexp_match_def Let_def split: if_splits list.splits)
  have "length (takeWhile ?P cs) + length (dropWhile ?P cs) = length cs"
    by (metis length_append takeWhile_dropWhile_id)
  with r have "length (takeWhile ?P cs) + 1 \<le> length cs"
    by simp
  moreover from ne have "1 \<le> length (takeWhile ?P cs)"
    by (cases "takeWhile ?P cs") auto
  ultimately show ?thesis
    using s m by simp
qed

text \<open>
  The scan that \<^verbatim>\<open>re.sub\<close> and \<^verbatim>\<open>re.findall\<close> share: the matches from the left, not
  overlapping, and the characters between them.
\<close>

datatype token = Lit char | Match string

function regexp_scan :: "string \<Rightarrow> token list" where
  "regexp_scan [] = []"
| "regexp_scan (c # cs) =
     (case regexp_match (c # cs) of
        None \<Rightarrow> Lit c # regexp_scan cs
      | Some m \<Rightarrow> Match m # regexp_scan (drop (length m) (c # cs)))"
  by pat_completeness auto
termination
proof (relation "measure length")
  show "wf (measure length)"
    by simp
next
  fix c :: char and cs :: string
  show "(cs, c # cs) \<in> measure length"
    by simp
next
  fix c :: char and cs m :: string
  assume "regexp_match (c # cs) = Some m"
  then have "3 \<le> length m"
    by (rule regexp_match_length [THEN conjunct1])
  then show "(drop (length m) (c # cs), c # cs) \<in> measure length"
    by simp
qed

text \<open>\<^verbatim>\<open>re.findall(regexp, s)\<close>: the pattern has no group, so the matched texts.\<close>

fun matches :: "token list \<Rightarrow> string list" where
  "matches [] = []"
| "matches (Lit c # ts) = matches ts"
| "matches (Match m # ts) = m # matches ts"

definition re_findall :: "string \<Rightarrow> string list" where
  "re_findall s = matches (regexp_scan s)"

section \<open>The state of the process and the remote service\<close>

text \<open>
  Times are microseconds (the resolution of \<^verbatim>\<open>datetime\<close>) since \<^verbatim>\<open>datetime.min\<close>, so
  \<^verbatim>\<open>datetime.min\<close> is 0 and \<^verbatim>\<open>timedelta(seconds=0.25)\<close> is 250000.

  Each use of \<^verbatim>\<open>@throttle(seconds=0.25)\<close> constructs a \<^verbatim>\<open>throttle\<close> object of its own:
  the script has two, one around \<^verbatim>\<open>query_reference\<close> and one around
  \<^verbatim>\<open>get_object_types\<close>, each with its own \<^verbatim>\<open>time_of_last_call\<close>.
\<close>

datatype throttle = Throttle_query_reference | Throttle_get_object_types

definition throttle_period :: int where
  "throttle_period = 250000"

definition datetime_min :: int where
  "datetime_min = 0"

text \<open>
  What the process does to the outside, in order: a gate lets a call through at a time,
  the bibliographic lookup, the region query and the HTML fetch are sent.
\<close>

datatype event =
    Acquire throttle int
  | Lookup string
  | Region
  | Fetch string

text \<open>
  \<open>clock\<close> holds the readings that the coming calls of \<^verbatim>\<open>datetime.datetime.now()\<close>
  return; \<open>files\<close> maps a file name to the text written to it so far.
\<close>

record world =
  clock :: "int list"
  time_of_last_call :: "throttle \<Rightarrow> int"
  events :: "event list"
  files :: "string \<Rightarrow> string option"

text \<open>
  A call returns a value, raises, or spins in the gate's \<^verbatim>\<open>while True\<close> loop until the
  readings of the clock are used up (\<open>Hang\<close>).
\<close>

datatype 'a result = Return 'a | Raise error | Hang

type_synonym 'a io = "world \<Rightarrow> 'a result \<times> world"

definition return_io :: "'a \<Rightarrow> 'a io" where
  "return_io x w = (Return x, w)"

definition raise_io :: "error \<Rightarrow> 'a io" where
  "raise_io e w = (Raise e, w)"

definition bind_io :: "'a io \<Rightarrow> ('a \<Rightarrow> 'b io) \<Rightarrow> 'b io" where
  "bind_io m f w =
     (case m w of
        (Return x, w') \<Rightarrow> f x w'
      | (Raise e, w') \<Rightarrow> (Raise e, w')
      | (Hang, w') \<Rightarrow> (Hang, w'))"

definition lift_io :: "error + 'a \<Rightarrow> 'a io" where
  "lift_io r = (case r of Inl e \<Rightarrow> raise_io e | Inr x \<Rightarrow> return_io x)"

definition emit :: "event \<Rightarrow> unit io" where
  "emit e w = (Return (), w\<lparr>events := events w @ [e]\<rparr>)"

section \<open>throttle\<close>

text \<open>
  The loop of \<^verbatim>\<open>wrapper\<close> reads the clock until a reading \<open>now\<close> has
  \<^verbatim>\<open>now - self.time_of_last_call >= self.throttle_period\<close>.
\<close>

fun await :: "int \<Rightarrow> int list \<Rightarrow> (int \<times> int list) option" where
  "await last_call [] = None"
| "await last_call (now # later) =
     (if now - last_call \<ge> throttle_period then Some (now, later) else await last_call later)"

text \<open>
  \<^verbatim>\<open>wrapper\<close>: the loop, then \<^verbatim>\<open>fn\<close>, then, in the \<^verbatim>\<open>finally\<close> clause and so also when
  \<^verbatim>\<open>fn\<close> raises, the assignment of \<open>now\<close> to \<^verbatim>\<open>self.time_of_last_call\<close>.
\<close>

definition wrapper :: "throttle \<Rightarrow> 'a io \<Rightarrow> 'a io" where
  "wrapper self fn w =
     (case await (time_of_last_call w self) (clock w) of
        None \<Rightarrow> (Hang, w\<lparr>clock := []\<rparr>)
      | Some (now, later) \<Rightarrow>
          (case fn (w\<lparr>clock := later, events := events w @ [Acquire self now]\<rparr>) of
             (Hang, w') \<Rightarrow> (Hang, w')
           | (r, w') \<Rightarrow> (r, w'\<lparr>time_of_last_call := (time_of_last_call w')(self := now)\<rparr>)))"

section \<open>The documents of the remote service\<close>

text \<open>
  What BeautifulSoup makes of a page: a tree of tags (name, attributes, contents) and
  strings.
\<close>

datatype node =
    NavigableString string
  | Tag string "(string \<times> string) list" "node list"

text \<open>
  An element is a node with the siblings before it, the nearest first, which is what
  \<^verbatim>\<open>previous_sibling\<close> needs.
\<close>

type_synonym element = "node list \<times> node"

fun previous_sibling :: "element \<Rightarrow> element option" where
  "previous_sibling ([], n) = None"
| "previous_sibling (p # ps, n) = Some (ps, p)"

text \<open>The descendants of a node, in document order.\<close>

fun descendants :: "node \<Rightarrow> element list"
  and descendants_from :: "node list \<Rightarrow> node list \<Rightarrow> element list" where
  "descendants (NavigableString s) = []"
| "descendants (Tag name attrs contents) = descendants_from [] contents"
| "descendants_from prev [] = []"
| "descendants_from prev (c # cs) =
     (prev, c) # descendants c @ descendants_from (c # prev) cs"

fun is_tag :: "string \<Rightarrow> node \<Rightarrow> bool" where
  "is_tag name (NavigableString s) = False"
| "is_tag name (Tag name' attrs contents) = (name' = name)"

fun get :: "node \<Rightarrow> string \<Rightarrow> string option" where
  "get (NavigableString s) key = None"
| "get (Tag name attrs contents) key = map_of attrs key"

text \<open>\<^verbatim>\<open>x.find_all(name)\<close> and \<^verbatim>\<open>x.find_all(name, title=True)\<close>.\<close>

definition find_all :: "string \<Rightarrow> node \<Rightarrow> element list" where
  "find_all name x = filter (\<lambda>e. is_tag name (snd e)) (descendants x)"

definition find_all_title :: "string \<Rightarrow> node \<Rightarrow> element list" where
  "find_all_title name x =
     filter (\<lambda>e. is_tag name (snd e) \<and> get (snd e) ''title'' \<noteq> None) (descendants x)"

text \<open>
  A \<^verbatim>\<open>SkyCoord\<close> as \<^verbatim>\<open>get_output_filename\<close> reads it: \<^verbatim>\<open>ra.hms\<close>, \<^verbatim>\<open>dec\<close> (in
  degrees) and \<^verbatim>\<open>dec.dms\<close>. The components are floats; each is modelled by the rational
  number that the float is.
\<close>

record skycoord =
  ra_hms :: "rat \<times> rat \<times> rat"
  dec_deg :: rat
  dec_dms :: "rat \<times> rat \<times> rat"

text \<open>
  The first row of the table that the region query returns, each field as the text that
  \<^verbatim>\<open>'{}'.format\<close> prints for it; \<open>DISTANCE\<close> is the text of
  \<^verbatim>\<open>round(actual_coords.separation(coords).arcsec, 2)\<close>, which astropy computes from
  the row and the queried coordinates.
\<close>

record row =
  RA :: string
  DEC :: string
  MAIN_ID :: string
  ID :: string
  COO_BIBCODE :: string
  SP_TYPE :: string
  COO_WAVELENGTH :: string
  OTYPE_V :: string
  DISTANCE :: string

text \<open>
  The remote service and the libraries in front of it, as the script sees them:
  \<^item> \<open>query_bibcode b\<close> is the value of \<^verbatim>\<open>str(Simbad.query_bibcode(b)[0])\<close>, or the
    exception of the call or of the subscript;
  \<^item> \<open>sim_id i\<close> is the soup that \<^verbatim>\<open>BeautifulSoup(r.text, "html5lib")\<close> makes of the
    page that \<^verbatim>\<open>requests.get\<close> fetches for the identifier \<open>i\<close>, or the exception;
  \<^item> \<open>repr_tags\<close> is how a \<^verbatim>\<open>ResultSet\<close> of tags prints;
  \<^item> \<open>query_region c\<close> is the first row of \<^verbatim>\<open>customSimbad.query_region(c, radius="1m")\<close>,
    or the exception of the call or of a subscript.
\<close>

record simbad =
  query_bibcode :: "string \<Rightarrow> error + string"
  sim_id :: "string \<Rightarrow> error + node"
  repr_tags :: "node list \<Rightarrow> string"
  query_region :: "skycoord \<Rightarrow> error + row"

section \<open>query\_reference\<close>

definition query_reference :: "simbad \<Rightarrow> string \<Rightarrow> string io" where
  "query_reference env bibcode =
     wrapper Throttle_query_reference
       (bind_io (emit (Lookup bibcode)) (\<lambda>_.
        bind_io (lift_io (query_bibcode env bibcode)) (\<lambda>text.
        lift_io (parse_reference text))))"

section \<open>get\_object\_types\<close>

definition bind_e :: "error + 'a \<Rightarrow> ('a \<Rightarrow> error + 'b) \<Rightarrow> error + 'b" where
  "bind_e r f = (case r of Inl e \<Rightarrow> Inl e | Inr x \<Rightarrow> f x)"

text \<open>\<^verbatim>\<open>xs[i]\<close> for \<open>i \<ge> 0\<close>, and \<^verbatim>\<open>xs[-1]\<close>.\<close>

definition index :: "'a list \<Rightarrow> nat \<Rightarrow> error + 'a" where
  "index xs i = (if i < length xs then Inr (xs ! i) else Inl IndexError)"

definition index_last :: "'a list \<Rightarrow> error + 'a" where
  "index_last xs = (if xs = [] then Inl IndexError else Inr (last xs))"

text \<open>\<^verbatim>\<open>x.contents\<close>: a string has no such attribute.\<close>

fun contents :: "node \<Rightarrow> error + node list" where
  "contents (NavigableString s) = Inl AttributeError"
| "contents (Tag name attrs cs) = Inr cs"

text \<open>
  The strings of a soup are \<^verbatim>\<open>unicode\<close>, whose \<^verbatim>\<open>strip()\<close> removes these characters
  (of those below 256).
\<close>

definition unicode_whitespace :: string where
  "unicode_whitespace =
     whitespace @ [CHR 0x1C, CHR 0x1D, CHR 0x1E, CHR 0x1F, CHR 0x85, CHR 0xA0]"

text \<open>
  A value that \<^verbatim>\<open>type_\<close> can hold. \<^verbatim>\<open>x.strip()\<close> is a string when \<open>x\<close> is a string. When
  \<open>x\<close> is a tag, \<^verbatim>\<open>x.strip\<close> is \<^verbatim>\<open>x.find('strip')\<close>, the first descendant tag of that
  name: calling \<^verbatim>\<open>None\<close> raises TypeError, and calling a tag is its \<^verbatim>\<open>find_all()\<close>, all
  the tags below it.
\<close>

datatype pyval = Str string | ResultSet "node list"

fun is_any_tag :: "node \<Rightarrow> bool" where
  "is_any_tag (NavigableString s) = False"
| "is_any_tag (Tag name attrs cs) = True"

fun call_strip :: "node \<Rightarrow> error + pyval" where
  "call_strip (NavigableString s) = Inr (Str (strip_chars unicode_whitespace s))"
| "call_strip (Tag name attrs cs) =
     (case find_all ''strip'' (Tag name attrs cs) of
        [] \<Rightarrow> Inl TypeError
      | e # _ \<Rightarrow> Inr (ResultSet (filter is_any_tag (map snd (descendants (snd e))))))"

text \<open>Lines 130 to 132: \<^verbatim>\<open>type_\<close> of the marker \<open>r\<close>.\<close>

definition object_type :: "element \<Rightarrow> error + pyval" where
  "object_type r =
     (case previous_sibling r of
        None \<Rightarrow> Inl AttributeError
      | Some p \<Rightarrow>
          (case previous_sibling p of
             None \<Rightarrow> Inl AttributeError
           | Some type_object \<Rightarrow>
               bind_e (contents (snd type_object)) (\<lambda>cs.
               bind_e (index cs 1) (\<lambda>tt.
               bind_e (contents tt) (\<lambda>tc.
               bind_e (index tc 0) call_strip)))))"

text \<open>Lines 133 to 138: \<^verbatim>\<open>title\<close> of the marker \<open>r\<close>.\<close>

definition reference_title :: "element \<Rightarrow> error + string" where
  "reference_title r =
     (case get (snd r) ''title'' of
        None \<Rightarrow> Inl AttributeError
      | Some tooltip \<Rightarrow>
          let title = join '', '' (split '','' tooltip) in
          if contains ''Ref'' title then
            bind_e (index (find_all ''a'' (snd r)) 0) (\<lambda>a.
              case get (snd a) ''href'' of
                None \<Rightarrow> Inl AttributeError
              | Some href \<Rightarrow>
                  bind_e (index_last (split ''?bibcode='' href)) (\<lambda>bibcode.
                  Inr (replace ''Ref'' (''{'' @ bibcode @ ''}'') title)))
          else Inr title)"

definition marker_entry :: "element \<Rightarrow> error + (pyval \<times> string)" where
  "marker_entry r =
     bind_e (object_type r) (\<lambda>type_name.
     bind_e (reference_title r) (\<lambda>title.
     Inr (type_name, title)))"

text \<open>
  A generator yields some entries and then ends, by returning (\<open>None\<close>) or by raising.
\<close>

fun yield_entries :: "element list \<Rightarrow> (pyval \<times> string) list \<times> error option" where
  "yield_entries [] = ([], None)"
| "yield_entries (r # rs) =
     (case marker_entry r of
        Inl e \<Rightarrow> ([], Some e)
      | Inr x \<Rightarrow> (case yield_entries rs of (ys, ending) \<Rightarrow> (x # ys, ending)))"

text \<open>Lines 125 to 140, from the soup.\<close>

definition object_types :: "node \<Rightarrow> (pyval \<times> string) list \<times> error option" where
  "object_types soup =
     (case index (find_all ''table'' soup) 3 of
        Inl e \<Rightarrow> ([], Some e)
      | Inr table \<Rightarrow> yield_entries (find_all_title ''tt'' (snd table)))"

text \<open>
  \<^verbatim>\<open>get_object_types\<close> is a generator function: the decorated call passes the gate and
  returns a generator that has run nothing yet. The body runs when the generator is
  iterated, which \<^verbatim>\<open>list(...)\<close> does to the end.
\<close>

datatype generator = Generator string

definition get_object_types :: "string \<Rightarrow> generator io" where
  "get_object_types identifier =
     wrapper Throttle_get_object_types (return_io (Generator identifier))"

fun list_generator :: "simbad \<Rightarrow> generator \<Rightarrow> (pyval \<times> string) list io" where
  "list_generator env (Generator identifier) =
     bind_io (emit (Fetch identifier)) (\<lambda>_.
     bind_io (lift_io (sim_id env identifier)) (\<lambda>soup.
     case object_types soup of
       (ys, None) \<Rightarrow> return_io ys
     | (ys, Some e) \<Rightarrow> raise_io e))"

section \<open>query\_coordinates\<close>

record field_dict =
  distance :: string
  ra :: string
  dec :: string
  main_id :: string
  identifiers :: string
  reference :: string
  spectral_type :: string
  wavelength :: string
  otype :: string
  all_types :: generator

definition query_coordinates :: "simbad \<Rightarrow> skycoord \<Rightarrow> field_dict io" where
  "query_coordinates env input_coords =
     bind_io (emit Region) (\<lambda>_.
     bind_io (lift_io (query_region env input_coords)) (\<lambda>result.
     bind_io (get_object_types (MAIN_ID result)) (\<lambda>g.
     return_io
       \<lparr>distance = DISTANCE result, ra = RA result, dec = DEC result,
        main_id = MAIN_ID result, identifiers = ID result,
        reference = COO_BIBCODE result, spectral_type = SP_TYPE result,
        wavelength = COO_WAVELENGTH result, otype = OTYPE_V result,
        all_types = g\<rparr>)))"

section \<open>generate\_report\<close>

definition fd_open :: "string \<Rightarrow> unit io" where
  "fd_open name w = (Return (), w\<lparr>files := (files w)(name \<mapsto> [])\<rparr>)"

definition fd_write :: "string \<Rightarrow> string \<Rightarrow> unit io" where
  "fd_write name s w =
     (Return (),
      w\<lparr>files := (files w)(name \<mapsto> (case files w name of None \<Rightarrow> s | Some t \<Rightarrow> t @ s))\<rparr>)"

definition url :: "string \<Rightarrow> string" where
  "url bibcode = ''http://simbad.u-strasbg.fr/simbad/sim-ref?bibcode='' @ bibcode"

definition bibcode_replacement :: "simbad \<Rightarrow> string \<Rightarrow> string io" where
  "bibcode_replacement env group0 = query_reference env (strip_chars ''{}'' group0)"

text \<open>
  \<^verbatim>\<open>re.sub(regexp, bibcode_replacement, refs)\<close>: the function is called for every match,
  from the left.
\<close>

fun sub_tokens :: "simbad \<Rightarrow> token list \<Rightarrow> string io" where
  "sub_tokens env [] = return_io []"
| "sub_tokens env (Lit c # ts) =
     bind_io (sub_tokens env ts) (\<lambda>rest. return_io (c # rest))"
| "sub_tokens env (Match m # ts) =
     bind_io (bibcode_replacement env m) (\<lambda>r.
     bind_io (sub_tokens env ts) (\<lambda>rest. return_io (r @ rest)))"

definition re_sub :: "simbad \<Rightarrow> string \<Rightarrow> string io" where
  "re_sub env s = sub_tokens env (regexp_scan s)"

definition format_type :: "simbad \<Rightarrow> pyval \<Rightarrow> string" where
  "format_type env v = (case v of Str s \<Rightarrow> s | ResultSet ns \<Rightarrow> repr_tags env ns)"

text \<open>The loop of lines 195 to 201; \<open>n\<close> is \<^verbatim>\<open>len(references)\<close>.\<close>

fun write_all_types :: "simbad \<Rightarrow> string \<Rightarrow> nat \<Rightarrow> nat \<Rightarrow> (pyval \<times> string) list \<Rightarrow> unit io" where
  "write_all_types env fd n i [] = return_io ()"
| "write_all_types env fd n i ((type_name, refs) # rest) =
     bind_io (re_sub env refs) (\<lambda>refs'.
     bind_io (fd_write fd (format_type env type_name @ '' ('' @ refs' @ '')'')) (\<lambda>_.
     bind_io (fd_write fd (if int i < int n - 1 then '', '' else [CHR 0x0A])) (\<lambda>_.
     write_all_types env fd n (Suc i) rest)))"

text \<open>
  The loops of lines 213 to 216. The Python set \<^verbatim>\<open>unique_references\<close> is a list without
  repetitions; the order of a set does not show, since the script only sorts it.
\<close>

fun add_matches :: "simbad \<Rightarrow> string list \<Rightarrow> string list \<Rightarrow> string list io" where
  "add_matches env unique_references [] = return_io unique_references"
| "add_matches env unique_references (r # rs) =
     (let bibcode = strip_chars ''{}'' r in
      bind_io (query_reference env bibcode) (\<lambda>citation.
      add_matches env (List.insert (citation @ '' '' @ url bibcode) unique_references) rs))"

fun add_references :: "simbad \<Rightarrow> string list \<Rightarrow> (pyval \<times> string) list \<Rightarrow> string list io" where
  "add_references env unique_references [] = return_io unique_references"
| "add_references env unique_references ((type_name, ref) # rest) =
     bind_io (add_matches env unique_references (re_findall ref)) (\<lambda>unique_references'.
     add_references env unique_references' rest)"

fun write_lines :: "string \<Rightarrow> string list \<Rightarrow> unit io" where
  "write_lines fd [] = return_io ()"
| "write_lines fd (r # rs) = bind_io (fd_write fd (r @ [CHR 0x0A])) (\<lambda>_. write_lines fd rs)"

text \<open>
  Lines 171 to 218; \<open>fs\<close> is the dictionary \<^verbatim>\<open>fields\<close>. The assignment to \<^verbatim>\<open>wavelength\<close> of lines 176 and 177 is left out: the
  variable is not read after it.
\<close>

definition generate_report :: "simbad \<Rightarrow> field_dict \<Rightarrow> string \<Rightarrow> unit io" where
  "generate_report env fs output_filename =
     (let fd = output_filename; nl = [CHR 0x0A] in
      bind_io (fd_open fd) (\<lambda>_.
      bind_io (fd_write fd (''Identifier: '' @ identifiers fs @ nl)) (\<lambda>_.
      bind_io (query_reference env (reference fs)) (\<lambda>author.
      bind_io (fd_write fd (nl @ ''Coordinates (ICRS): '' @ ra fs @ '' '' @ dec fs
                 @ '' '' @ author @ '' ['' @ reference fs @ '']'' @ nl)) (\<lambda>_.
      bind_io (fd_write fd (nl @ ''Distance to center (arcsec): '' @ distance fs @ nl)) (\<lambda>_.
      bind_io (fd_write fd (nl @ ''Type: '' @ otype fs @ nl)) (\<lambda>_.
      bind_io (list_generator env (all_types fs)) (\<lambda>references.
      bind_io (fd_write fd (nl @ ''All types: '')) (\<lambda>_.
      bind_io (write_all_types env fd (length references) 0 references) (\<lambda>_.
      bind_io (fd_write fd (nl @ ''Spectral type: '' @ spectral_type fs @ nl)) (\<lambda>_.
      bind_io (fd_write fd (nl @ ''References:'' @ nl)) (\<lambda>_.
      bind_io (fd_write fd (reference fs @ '' '' @ url (reference fs) @ nl)) (\<lambda>_.
      bind_io (add_references env [] references) (\<lambda>unique_references.
      write_lines fd (sort unique_references)))))))))))))))"

section \<open>get\_output\_filename\<close>

text \<open>\<^verbatim>\<open>str(n)\<close> for a natural number.\<close>

fun str_nat :: "nat \<Rightarrow> string" where
  "str_nat n = (if n < 10 then [digits ! n] else str_nat (n div 10) @ [digits ! (n mod 10)])"

declare str_nat.simps [simp del]

definition zfill :: "nat \<Rightarrow> string \<Rightarrow> string" where
  "zfill width s = replicate (width - length s) (CHR ''0'') @ s"

text \<open>\<^verbatim>\<open>int(x)\<close> of a float: towards zero.\<close>

definition trunc :: "rat \<Rightarrow> int" where
  "trunc x = (if 0 \<le> x then \<lfloor>x\<rfloor> else \<lceil>x\<rceil>)"

text \<open>\<^verbatim>\<open>'{:02}'.format(i)\<close>: at least two characters, zeros between the sign and the digits.\<close>

definition format_02 :: "int \<Rightarrow> string" where
  "format_02 i = (if i < 0 then ''-'' @ zfill 1 (str_nat (nat (- i))) else zfill 2 (str_nat (nat i)))"

text \<open>
  Rounding to the nearest integer, a tie to the even one: the formatting of a float
  rounds the exact value of the float, and 0.0625 is printed as \<^verbatim>\<open>0.062\<close>.
\<close>

definition round_half_even :: "rat \<Rightarrow> int" where
  "round_half_even q =
     (let f = \<lfloor>q\<rfloor>; r = q - of_int f in
      if r < 1 / 2 then f else if 1 / 2 < r then f + 1 else if even f then f else f + 1)"

text \<open>
  \<^verbatim>\<open>'{:06.3f}'.format(x)\<close>: three decimals, at least six characters, zeros between the
  sign and the digits.
\<close>

definition format_06_3f :: "rat \<Rightarrow> string" where
  "format_06_3f x =
     (let n = nat (round_half_even (\<bar>x\<bar> * 1000));
          body = str_nat (n div 1000) @ ''.'' @ zfill 3 (str_nat (n mod 1000))
      in if x < 0 then ''-'' @ zfill 5 body else zfill 6 body)"

text \<open>\<^verbatim>\<open>fmt = '{:02}{:02}{:06.3f}'\<close>.\<close>

definition fmt :: "int \<Rightarrow> int \<Rightarrow> rat \<Rightarrow> string" where
  "fmt a b c = format_02 a @ format_02 b @ format_06_3f c"

definition get_output_filename_ext :: "skycoord \<Rightarrow> string \<Rightarrow> string" where
  "get_output_filename_ext input_coords extension =
     (case ra_hms input_coords of (h, m, s) \<Rightarrow>
        let ra = fmt (trunc h) (trunc m) s;
            separator = (if 0 \<le> dec_deg input_coords then ''+'' else ''-'')
        in (case dec_dms input_coords of (d0, m0, s0) \<Rightarrow>
              let d = \<bar>d0\<bar>; m = \<bar>m0\<bar>; s = \<bar>s0\<bar>;
                  dec = fmt (trunc d) (trunc m) s
              in ''J'' @ ra @ separator @ dec @ extension))"

text \<open>The default of the second argument.\<close>

definition get_output_filename :: "skycoord \<Rightarrow> string" where
  "get_output_filename input_coords = get_output_filename_ext input_coords ''.txt''"

section \<open>The main loop\<close>

text \<open>
  Lines 233 to 246, over the coordinates that \<^verbatim>\<open>parse_coordinates\<close> makes of the lines
  that are neither empty nor comments. What the loop prints is left out.
\<close>

fun main :: "simbad \<Rightarrow> skycoord list \<Rightarrow> unit io" where
  "main env [] = return_io ()"
| "main env (coords # rest) =
     bind_io (query_coordinates env coords) (\<lambda>fs.
     bind_io (generate_report env fs (get_output_filename coords)) (\<lambda>_.
     main env rest))"

section \<open>Example data\<close>

text \<open>
  A page as the detail endpoint lays it out: in the fourth table each classification is
  a cell with the type in a \<^verbatim>\<open>tt\<close>, then the string \<^verbatim>\<open>" ("\<close>, then the marker, a \<^verbatim>\<open>tt\<close>
  with a \<^verbatim>\<open>title\<close>.
\<close>

definition type_object_of :: "string \<Rightarrow> node" where
  "type_object_of t =
     Tag ''b'' [] [NavigableString [CHR 0x0A], Tag ''tt'' [] [NavigableString ('' '' @ t @ '' '')]]"

definition marker_of :: "string \<Rightarrow> string \<Rightarrow> node" where
  "marker_of tooltip href =
     Tag ''tt'' [(''title'', tooltip)]
       [Tag ''a'' [(''href'', href)] [NavigableString ''Ref''], NavigableString tooltip]"

definition marker_Rad :: node where
  "marker_Rad = Tag ''tt'' [(''title'', ''[LSK98],[RRC99]'')] [NavigableString ''[LSK98],[RRC99]'']"

definition page :: "node list \<Rightarrow> node" where
  "page cells =
     Tag ''[document]'' [] [Tag ''html'' [] [Tag ''body'' []
       [Tag ''table'' [] [], Tag ''table'' [] [], Tag ''table'' [] [],
        Tag ''table'' [] [Tag ''tr'' [] [Tag ''td'' [] cells]]]]]"

definition soup_HOPS :: node where
  "soup_HOPS =
     page
       [type_object_of ''Y*O'', NavigableString '' ('',
        marker_of ''Ref,HOPS,[MGM2012]''
          ''//simbad.u-strasbg.fr/simbad/sim-ref?bibcode=2012ApJ...753L..35B'',
        NavigableString ''), '',
        type_object_of ''Rad'', NavigableString '' ('', marker_Rad, NavigableString '')'']"

definition row_HOPS :: row where
  "row_HOPS =
     \<lparr>RA = ''05 35 27.6'', DEC = ''-05 09 34'', MAIN_ID = ''HOPS 370'', ID = ''HOPS 370'',
      COO_BIBCODE = ''1999AJ....118..983R'', SP_TYPE = [], COO_WAVELENGTH = ''I'',
      OTYPE_V = ''YSO'', DISTANCE = ''0.12''\<rparr>"

text \<open>A service that answers every bibliographic lookup with the response quoted above.\<close>

definition env_HOPS :: simbad where
  "env_HOPS =
     \<lparr>query_bibcode = (\<lambda>b. Inr response_Reipurth), sim_id = (\<lambda>i. Inr soup_HOPS),
      repr_tags = (\<lambda>ns. []), query_region = (\<lambda>c. Inr row_HOPS)\<rparr>"

text \<open>
  The process at its start, with a clock that is read at 1 s, 100 microseconds later,
  and then every 0.3 s.
\<close>

definition world0 :: world where
  "world0 =
     \<lparr>clock = [1000000, 1000100, 1300100, 1600100, 1900100, 2200100, 2500100, 2800100],
      time_of_last_call = (\<lambda>t. datetime_min), events = [], files = Map.empty\<rparr>"

definition coords_VLA7 :: skycoord where
  "coords_VLA7 =
     \<lparr>ra_hms = (5, 35, 2455 / 100), dec_deg = - (5 + 6 / 60 + 59 / 3600),
      dec_dms = (- 5, - 6, - 59)\<rparr>"

text \<open>A response whose first author is written with capitals inside the name.\<close>

definition response_McDonald :: string where
  "response_McDonald =
     join [CHR 0x0A]
       [''References'',
        ''----------------------------'',
        ''2005ApJ...999..111M = DOI 10.1086/000000'',
        ''Astrophys. J., 999, 111-120 (2005)'',
        ''McDONALD J. and O-NEIL P.'',
        ''A title.'']"

definition env_McDonald :: simbad where
  "env_McDonald = env_HOPS\<lparr>query_bibcode := (\<lambda>b. Inr response_McDonald)\<rparr>"

text \<open>
  A response whose first author has a letter outside ASCII: U with diaeresis, the bytes
  0xC3 0x9C in UTF-8.
\<close>

definition response_Mueller :: string where
  "response_Mueller =
     join [CHR 0x0A]
       [''References'',
        ''----------------------------'',
        ''2005ApJ...999..222M = DOI 10.1086/000001'',
        ''Astrophys. J., 999, 222-230 (2005)'',
        [CHR ''M'', CHR 0xC3, CHR 0x9C, CHR ''L'', CHR ''L'', CHR ''E'', CHR ''R''] @ '' A. and SMITH B.'',
        ''A title.'']"

definition env_Mueller :: simbad where
  "env_Mueller = env_HOPS\<lparr>query_bibcode := (\<lambda>b. Inr response_Mueller)\<rparr>"


text \<open>
  Markers with the siblings before them: a marker with commas and no \<^verbatim>\<open>Ref\<close>, a marker
  whose link has no \<^verbatim>\<open>?bibcode=\<close>, a marker with \<^verbatim>\<open>Ref\<close> and no link; and pages with
  such markers, or with too few tables.
\<close>

definition element_Rad :: element where
  "element_Rad = ([NavigableString '' ('', type_object_of ''Rad''], marker_Rad)"

definition element_plain_href :: element where
  "element_plain_href =
     ([NavigableString '' ('', type_object_of ''Y*O''],
      marker_of ''Ref,HOPS'' ''/simbad/sim-ref/2012ApJ...753L..35B'')"

definition marker_no_anchor :: node where
  "marker_no_anchor = Tag ''tt'' [(''title'', ''Ref,HOPS'')] [NavigableString ''Ref,HOPS'']"

definition soup_no_anchor :: node where
  "soup_no_anchor =
     page [type_object_of ''Rad'', NavigableString '' ('', marker_Rad, NavigableString ''), '',
           type_object_of ''Y*O'', NavigableString '' ('', marker_no_anchor, NavigableString '')'']"

definition soup_few_tables :: node where
  "soup_few_tables =
     Tag ''[document]'' [] [Tag ''html'' [] [Tag ''body'' []
       [Tag ''table'' [] [], Tag ''table'' [] [], Tag ''table'' [] [marker_Rad]]]]"

definition env_malformed :: simbad where
  "env_malformed =
     env_HOPS\<lparr>query_bibcode := (\<lambda>b. Inr ''References''),
       sim_id := (\<lambda>i. if i = ''few'' then Inr soup_few_tables else Inr soup_no_anchor)\<rparr>"


section \<open>Notions for the statements about the order of events\<close>

text \<open>
  The times at which the gate \<open>self\<close> let a call through, in order, and those of both
  gates together.
\<close>

fun acquisitions :: "throttle \<Rightarrow> event list \<Rightarrow> int list" where
  "acquisitions self [] = []"
| "acquisitions self (Acquire t now # es) =
     (if t = self then now # acquisitions self es else acquisitions self es)"
| "acquisitions self (Lookup b # es) = acquisitions self es"
| "acquisitions self (Region # es) = acquisitions self es"
| "acquisitions self (Fetch i # es) = acquisitions self es"

fun all_acquisitions :: "event list \<Rightarrow> int list" where
  "all_acquisitions [] = []"
| "all_acquisitions (Acquire t now # es) = now # all_acquisitions es"
| "all_acquisitions (Lookup b # es) = all_acquisitions es"
| "all_acquisitions (Region # es) = all_acquisitions es"
| "all_acquisitions (Fetch i # es) = all_acquisitions es"

text \<open>Successive times are at least the throttle period apart.\<close>

definition spaced :: "int list \<Rightarrow> bool" where
  "spaced ts = successively (\<lambda>a b. throttle_period \<le> b - a) ts"

text \<open>
  What holds of each gate between two calls: its acquisitions so far are spaced, and the
  last of them is its \<^verbatim>\<open>time_of_last_call\<close>.
\<close>

definition gate_ok :: "world \<Rightarrow> bool" where
  "gate_ok w =
     (\<forall>self. spaced (acquisitions self (events w)) \<and>
        (acquisitions self (events w) \<noteq> [] \<longrightarrow>
           last (acquisitions self (events w)) = time_of_last_call w self))"

text \<open>A step keeps a property of the process.\<close>

definition keeps :: "(world \<Rightarrow> bool) \<Rightarrow> 'a io \<Rightarrow> bool" where
  "keeps P m = (\<forall>w. P w \<longrightarrow> P (snd (m w)))"

text \<open>The events of a citation resolution: its gate and its lookup.\<close>

fun resolution_event :: "event \<Rightarrow> bool" where
  "resolution_event (Acquire t now) = (t = Throttle_query_reference)"
| "resolution_event (Lookup b) = True"
| "resolution_event Region = False"
| "resolution_event (Fetch i) = False"

text \<open>
  A step only adds events, and \<open>Q\<close> holds of its outcome and of the events it adds.
\<close>

definition emits :: "'a io \<Rightarrow> ('a result \<Rightarrow> event list \<Rightarrow> bool) \<Rightarrow> bool" where
  "emits m Q = (\<forall>w. \<exists>evs. events (snd (m w)) = events w @ evs \<and> Q (fst (m w)) evs)"

text \<open>Steps that only resolve citations.\<close>

definition resolves :: "'a io \<Rightarrow> bool" where
  "resolves m = emits m (\<lambda>r evs. list_all resolution_event evs)"

text \<open>
  The page for \<open>identifier\<close> came, and the generator went through all its markers and
  ended without raising.
\<close>

definition extraction_done :: "simbad \<Rightarrow> string \<Rightarrow> bool" where
  "extraction_done env identifier =
     (\<exists>soup entries. sim_id env identifier = Inr soup \<and> object_types soup = (entries, None))"

definition after_fetch :: "simbad \<Rightarrow> string \<Rightarrow> event list \<Rightarrow> bool" where
  "after_fetch env identifier evs =
     (\<exists>post. evs = Fetch identifier # post \<and> list_all resolution_event post \<and>
        (post \<noteq> [] \<longrightarrow> extraction_done env identifier))"

section \<open>The file name pattern of the specification\<close>

text \<open>
  The pattern \<^verbatim>\<open>J{hh}{mm}{sss.sss}{sign}{dd}{mm}{sss.sss}.txt\<close> in the words of the
  specification: a number below 100 in two decimal digits, and a number of milliseconds
  below 100000 as seconds in six characters, two digits, the point, three digits.
\<close>

definition digit :: "nat \<Rightarrow> char" where
  "digit k = digits ! k"

definition two_digits :: "nat \<Rightarrow> string" where
  "two_digits n = [digit (n div 10), digit (n mod 10)]"

definition seconds_field :: "nat \<Rightarrow> string" where
  "seconds_field n =
     [digit (n div 10000), digit (n div 1000 mod 10), CHR ''.'',
      digit (n div 100 mod 10), digit (n div 10 mod 10), digit (n mod 10)]"

definition milliseconds :: "rat \<Rightarrow> nat" where
  "milliseconds x = nat (round_half_even (\<bar>x\<bar> * 1000))"

definition is_two_digits :: "string \<Rightarrow> bool" where
  "is_two_digits x = (length x = 2 \<and> list_all isdigit x)"

definition is_seconds :: "string \<Rightarrow> bool" where
  "is_seconds x = (length x = 6 \<and> x ! 2 = CHR ''.'' \<and> list_all isdigit (take 2 x @ drop 3 x))"

section \<open>Example data: a bibcode of Astronomy and Astrophysics\<close>

text \<open>
  The tests of the repository resolve \<^verbatim>\<open>2005A&A...432..161G\<close> to \<^verbatim>\<open>Goddi05\<close>. Here is a
  response for it, a page whose first marker links to it and whose second links to
  \<^verbatim>\<open>1999AJ....118..983R\<close>, and a service with both.
\<close>

definition response_Goddi :: string where
  "response_Goddi =
     join [CHR 0x0A]
       [''References'',
        ''----------------------------'',
        ''2005A&A...432..161G = DOI 10.1051/0004-6361:20041836'',
        ''Astron. Astrophys., 432, 161-173 (2005)'',
        ''GODDI C., MOSCADELLI L., ALEF W., TARCHI A., BRAND J. and PANI M.'',
        ''Kinematics of H2O masers in high-mass star forming regions.'']"

definition soup_AA :: node where
  "soup_AA =
     page
       [type_object_of ''Mas'', NavigableString '' ('',
        marker_of ''Ref,[MGM2012]''
          ''//simbad.u-strasbg.fr/simbad/sim-ref?bibcode=2005A&A...432..161G'',
        NavigableString ''), '',
        type_object_of ''Y*O'', NavigableString '' ('',
        marker_of ''Ref''
          ''//simbad.u-strasbg.fr/simbad/sim-ref?bibcode=1999AJ....118..983R'',
        NavigableString '')'']"

definition env_AA :: simbad where
  "env_AA =
     \<lparr>query_bibcode =
        (\<lambda>b. if b = ''2005A&A...432..161G'' then Inr response_Goddi else Inr response_Reipurth),
      sim_id = (\<lambda>i. Inr soup_AA),
      repr_tags = (\<lambda>ns. []), query_region = (\<lambda>c. Inr row_HOPS)\<rparr>"


section \<open>Properties of the string methods\<close>

lemma lower_not_upper: "\<not> isupper (lower c)"
  unfolding isupper_def lower_def ascii_uppercase_def ascii_lowercase_def
  by (simp split: option.split)

lemma upper_not_lower: "\<not> islower (upper c)"
  unfolding islower_def upper_def ascii_uppercase_def ascii_lowercase_def
  by (simp split: option.split)

lemma split_aux_no_sep: "\<not> contains sep s \<Longrightarrow> split_aux sep acc s = [rev acc @ s]"
  by (induction s arbitrary: acc) auto

lemma split_no_sep: "\<not> contains sep s \<Longrightarrow> split sep s = [s]"
  by (simp add: split_def split_aux_no_sep)

lemma split_aux_not_Nil: "split_aux sep acc s \<noteq> []"
  by (induction sep acc s rule: split_aux.induct) auto

lemma split_not_Nil: "split sep s \<noteq> []"
  by (simp add: split_def split_aux_not_Nil)

lemma join_Cons: "ys \<noteq> [] \<Longrightarrow> join sep (x # ys) = x @ sep @ join sep ys"
  by (cases ys) auto

lemma join_split_aux_comma:
  "join '', '' (split_aux '','' acc s) = rev acc @ replace '','' '', '' s"
  by (induction s arbitrary: acc) (auto simp: join_Cons split_aux_not_Nil)

text \<open>Joining with \<^verbatim>\<open>', '\<close> what was split at \<^verbatim>\<open>','\<close> puts a space behind every comma.\<close>

lemma join_split_comma: "join '', '' (split '','' s) = replace '','' '', '' s"
  by (simp add: split_def join_split_aux_comma)

lemma replace_absent: "\<not> contains old s \<Longrightarrow> replace old new s = s"
  by (induction s) auto

lemma contains_Ref_comma:
  "contains ''Ref'' (replace '','' '', '' s) = contains ''Ref'' s"
proof (induction s)
  case Nil
  show ?case by simp
next
  case (Cons c cs)
  show ?case
  proof (cases cs)
    case Nil
    then show ?thesis by auto
  next
    case a: (Cons d ds)
    show ?thesis
    proof (cases ds)
      case Nil
      with a Cons show ?thesis by auto
    next
      case b: (Cons e es)
      with a Cons show ?thesis by auto
    qed
  qed
qed

lemma capitalize_shape:
  "length (capitalize seg) = length seg \<and>
   take 1 (capitalize seg) = map upper (take 1 seg) \<and>
   drop 1 (capitalize seg) = map lower (drop 1 seg) \<and>
   list_all (\<lambda>c. \<not> islower c) (take 1 (capitalize seg)) \<and>
   list_all (\<lambda>c. \<not> isupper c) (drop 1 (capitalize seg))"
  by (cases seg) (auto simp: list_all_iff lower_not_upper upper_not_lower)

section \<open>Properties of query\_reference\<close>

lemma re_findall_year_elem:
  "y \<in> set (re_findall_year s) \<Longrightarrow> length y = 4 \<and> list_all isdigit y"
  by (induction s rule: re_findall_year.induct) (auto split: if_splits)

lemma year_last_two:
  assumes "length year = 4"
  shows "drop (length year - 2) year = [year ! 2, year ! 3]"
proof -
  from assms obtain a b c d where "year = [a, b, c, d]"
    by (auto simp: length_Suc_conv numeral_eq_Suc)
  then show ?thesis
    by simp
qed

lemma parse_reference_Inr:
  "parse_reference text = Inr citation \<longleftrightarrow>
     4 < length (splitlines (strip text)) \<and>
     (\<exists>name rest year others.
        split_ws (splitlines (strip text) ! 4) = name # rest \<and>
        list_all isascii name \<and>
        re_findall_year (splitlines (strip text) ! 3) = year # others \<and>
        citation = join ''-'' (map capitalize (split ''-'' name)) @ drop (length year - 2) year)"
  by (auto simp: parse_reference_def Let_def split: list.splits)

lemma parse_reference_Inl:
  "parse_reference text = Inl e \<Longrightarrow> e = IndexError \<or> e = UnicodeDecodeError"
  by (auto simp: parse_reference_def Let_def split: list.splits if_splits)

lemma parse_reference_not_ascii:
  assumes "4 < length (splitlines (strip text))"
    "split_ws (splitlines (strip text) ! 4) = name # rest" "\<not> list_all isascii name"
  shows "parse_reference text = Inl UnicodeDecodeError"
  using assms by (simp add: parse_reference_def Let_def)

text \<open>
  The loop of the gate ends exactly when some coming reading of the clock is a throttle
  period or more after the last call, and then \<open>now\<close> is the first such reading.
\<close>

lemma await_Some_iff:
  "await last_call readings = Some (now, later) \<longleftrightarrow>
     (\<exists>early. readings = early @ now # later \<and>
        list_all (\<lambda>t. t - last_call < throttle_period) early \<and>
        throttle_period \<le> now - last_call)"
proof (induction readings)
  case Nil
  show ?case by simp
next
  case (Cons t ts)
  show ?case
  proof (cases "throttle_period \<le> t - last_call")
    case True
    have "(\<exists>early. t # ts = early @ now # later \<and>
        list_all (\<lambda>t. t - last_call < throttle_period) early \<and>
        throttle_period \<le> now - last_call) \<longleftrightarrow> t = now \<and> ts = later"
    proof
      assume "\<exists>early. t # ts = early @ now # later \<and>
        list_all (\<lambda>t. t - last_call < throttle_period) early \<and>
        throttle_period \<le> now - last_call"
      then obtain early where e: "t # ts = early @ now # later"
        "list_all (\<lambda>t. t - last_call < throttle_period) early"
        by blast
      with True show "t = now \<and> ts = later"
        by (cases early) auto
    next
      assume "t = now \<and> ts = later"
      with True show "\<exists>early. t # ts = early @ now # later \<and>
        list_all (\<lambda>t. t - last_call < throttle_period) early \<and>
        throttle_period \<le> now - last_call"
        by (intro exI [of _ "[]"]) simp
    qed
    with True show ?thesis
      by auto
  next
    case False
    have "(\<exists>early. t # ts = early @ now # later \<and>
        list_all (\<lambda>t. t - last_call < throttle_period) early \<and>
        throttle_period \<le> now - last_call) \<longleftrightarrow>
      (\<exists>early. ts = early @ now # later \<and>
        list_all (\<lambda>t. t - last_call < throttle_period) early \<and>
        throttle_period \<le> now - last_call)"
    proof
      assume "\<exists>early. t # ts = early @ now # later \<and>
        list_all (\<lambda>t. t - last_call < throttle_period) early \<and>
        throttle_period \<le> now - last_call"
      then obtain early where e: "t # ts = early @ now # later"
        "list_all (\<lambda>t. t - last_call < throttle_period) early"
        "throttle_period \<le> now - last_call"
        by blast
      with False obtain early' where "early = t # early'"
        by (cases early) auto
      with e show "\<exists>early. ts = early @ now # later \<and>
        list_all (\<lambda>t. t - last_call < throttle_period) early \<and>
        throttle_period \<le> now - last_call"
        by auto
    next
      assume "\<exists>early. ts = early @ now # later \<and>
        list_all (\<lambda>t. t - last_call < throttle_period) early \<and>
        throttle_period \<le> now - last_call"
      then obtain early where e: "ts = early @ now # later"
        "list_all (\<lambda>t. t - last_call < throttle_period) early"
        "throttle_period \<le> now - last_call"
        by blast
      with False show "\<exists>early. t # ts = early @ now # later \<and>
        list_all (\<lambda>t. t - last_call < throttle_period) early \<and>
        throttle_period \<le> now - last_call"
        by (intro exI [of _ "t # early"]) simp
    qed
    with False Cons show ?thesis
      by simp
  qed
qed

lemma await_passes:
  "(\<exists>now later. await last_call readings = Some (now, later)) \<longleftrightarrow>
     (\<exists>t \<in> set readings. throttle_period \<le> t - last_call)"
  by (induction readings) auto

text \<open>What one call of the decorated \<^verbatim>\<open>query_reference\<close> does to the process.\<close>

lemma query_reference_unfold:
  "query_reference env b w =
     (case await (time_of_last_call w Throttle_query_reference) (clock w) of
        None \<Rightarrow> (Hang, w\<lparr>clock := []\<rparr>)
      | Some (now, later) \<Rightarrow>
          ((case bind_e (query_bibcode env b) parse_reference of
              Inl e \<Rightarrow> Raise e
            | Inr c \<Rightarrow> Return c),
           w\<lparr>clock := later,
             events := events w @ [Acquire Throttle_query_reference now, Lookup b],
             time_of_last_call := (time_of_last_call w)(Throttle_query_reference := now)\<rparr>))"
  by (auto simp: query_reference_def wrapper_def bind_io_def emit_def lift_io_def
      raise_io_def return_io_def bind_e_def split: option.splits sum.splits)

lemma parse_reference_Reipurth: "parse_reference response_Reipurth = Inr ''Reipurth99''"
  by code_simp

lemma capitalize_REIPURTH: "join ''-'' (map capitalize (split ''-'' ''REIPURTH'')) = ''Reipurth''"
  by code_simp

lemma capitalize_MORALES:
  "join ''-'' (map capitalize (split ''-'' ''MORALES-CALDERON'')) = ''Morales-Calderon''"
  by code_simp

lemma capitalize_CUTRI: "join ''-'' (map capitalize (split ''-'' ''CUTRI'')) = ''Cutri''"
  by code_simp

text \<open>
  Claim C5, as amended. When the clock comes to read a throttle period or more after the last call
  (so that the gate lets the call through) and the response is well formed (at
  least five lines, a first token \<open>name\<close> on line 4, a first parenthesised four-digit
  \<open>year\<close> on line 3) and \<open>name\<close> is made of ASCII bytes, \<^verbatim>\<open>query_reference\<close> returns the
  segments of \<open>name\<close> between hyphens, each capitalized, joined with hyphens again,
  followed by the last two digits of \<open>year\<close>. So the responses for REIPURTH (1999),
  MORALES-CALDERON (2011) and CUTRI (2003) give Reipurth99, Morales-Calderon11 and
  Cutri03. A surname with a byte outside ASCII is not returned in any form: the call
  raises UnicodeDecodeError, as the response shows whose surname is MULLER with the
  bytes 0xC3 0x9C (U with diaeresis in UTF-8) for its second letter.
\<close>

theorem query_reference_citation:
  assumes clock: "\<exists>t \<in> set (clock w). throttle_period \<le> t - time_of_last_call w Throttle_query_reference"
    and resp: "query_bibcode env bibcode = Inr text"
    and lines: "4 < length (splitlines (strip text))"
    and author: "split_ws (splitlines (strip text) ! 4) = name # rest"
    and ascii: "list_all isascii name"
    and year: "re_findall_year (splitlines (strip text) ! 3) = year # others"
  shows "fst (query_reference env bibcode w) =
           Return (join ''-'' (map capitalize (split ''-'' name)) @ [year ! 2, year ! 3])
       \<and> length year = 4 \<and> list_all isdigit year
       \<and> (name = ''REIPURTH'' \<and> year = ''1999'' \<longrightarrow>
            fst (query_reference env bibcode w) = Return ''Reipurth99'')
       \<and> (name = ''MORALES-CALDERON'' \<and> year = ''2011'' \<longrightarrow>
            fst (query_reference env bibcode w) = Return ''Morales-Calderon11'')
       \<and> (name = ''CUTRI'' \<and> year = ''2003'' \<longrightarrow>
            fst (query_reference env bibcode w) = Return ''Cutri03'')"
proof -
  from clock obtain now later where
    gate: "await (time_of_last_call w Throttle_query_reference) (clock w) = Some (now, later)"
    using await_passes [of "time_of_last_call w Throttle_query_reference" "clock w"] by blast
  have y: "length year = 4 \<and> list_all isdigit year"
    using re_findall_year_elem [of year "splitlines (strip text) ! 3"] year by simp
  have "parse_reference text =
          Inr (join ''-'' (map capitalize (split ''-'' name)) @ drop (length year - 2) year)"
    using lines author ascii year by (simp add: parse_reference_Inr)
  then have p: "parse_reference text =
          Inr (join ''-'' (map capitalize (split ''-'' name)) @ [year ! 2, year ! 3])"
    using y year_last_two [of year] by simp
  have q: "fst (query_reference env bibcode w) =
          Return (join ''-'' (map capitalize (split ''-'' name)) @ [year ! 2, year ! 3])"
    using gate resp p by (simp add: query_reference_unfold bind_e_def)
  show ?thesis
    using q y by (auto simp: capitalize_REIPURTH capitalize_MORALES capitalize_CUTRI)
qed

theorem query_reference_citation_witness:
  "fst (query_reference env_HOPS ''1999AJ....118..983R'' world0) = Return ''Reipurth99''"
proof -
  have gate: "\<exists>t \<in> set (clock world0).
      throttle_period \<le> t - time_of_last_call world0 Throttle_query_reference"
    by (simp add: world0_def throttle_period_def datetime_min_def)
  have resp: "query_bibcode env_HOPS ''1999AJ....118..983R'' = Inr response_Reipurth"
    by (simp add: env_HOPS_def)
  have lines: "4 < length (splitlines (strip response_Reipurth))"
    by code_simp
  have author: "split_ws (splitlines (strip response_Reipurth) ! 4) =
      ''REIPURTH'' # [''B.,'', ''RODRIGUEZ'', ''L.F.'', ''and'', ''CHINI'', ''R.'']"
    by code_simp
  have ascii: "list_all isascii ''REIPURTH''"
    by code_simp
  have year: "re_findall_year (splitlines (strip response_Reipurth) ! 3) = ''1999'' # []"
    by code_simp
  show ?thesis
    using query_reference_citation [OF gate resp lines author ascii year]
    by (simp add: capitalize_REIPURTH)
qed

theorem non_ascii_surname_counterexample:
  "query_bibcode env_Mueller ''2005ApJ...999..222M'' = Inr response_Mueller \<and>
   4 < length (splitlines (strip response_Mueller)) \<and>
   split_ws (splitlines (strip response_Mueller) ! 4) =
     [[CHR ''M'', CHR 0xC3, CHR 0x9C, CHR ''L'', CHR ''L'', CHR ''E'', CHR ''R''],
      ''A.'', ''and'', ''SMITH'', ''B.''] \<and>
   re_findall_year (splitlines (strip response_Mueller) ! 3) = [''2005''] \<and>
   fst (query_reference env_Mueller ''2005ApJ...999..222M'' world0) = Raise UnicodeDecodeError"
  by code_simp


lemma query_reference_Return:
  "fst (query_reference env b w) = Return c \<Longrightarrow>
     \<exists>text. query_bibcode env b = Inr text \<and> parse_reference text = Inr c"
  by (auto simp: query_reference_unfold bind_e_def split: option.splits sum.splits)

text \<open>
  Claim C9. Whenever \<^verbatim>\<open>query_reference\<close> returns, the citation is the hyphen-joined
  list of the capitalized segments of the surname token, followed by digits; and a
  capitalized segment is as long as the segment, its first character is the upper-cased
  first character, every later character is the lower-cased one, so no later character
  is an upper-case letter. The witness is McDONALD, which comes back as Mcdonald.
\<close>

theorem citation_segments_capitalized:
  assumes "fst (query_reference env bibcode w) = Return citation"
  shows "\<exists>text name rest yy.
           query_bibcode env bibcode = Inr text \<and>
           split_ws (splitlines (strip text) ! 4) = name # rest \<and>
           citation = join ''-'' (map capitalize (split ''-'' name)) @ yy \<and>
           list_all isdigit yy \<and>
           list_all
             (\<lambda>seg. length (capitalize seg) = length seg \<and>
                    take 1 (capitalize seg) = map upper (take 1 seg) \<and>
                    drop 1 (capitalize seg) = map lower (drop 1 seg) \<and>
                    list_all (\<lambda>c. \<not> islower c) (take 1 (capitalize seg)) \<and>
                    list_all (\<lambda>c. \<not> isupper c) (drop 1 (capitalize seg)))
             (split ''-'' name)"
proof -
  from assms obtain body where t: "query_bibcode env bibcode = Inr body"
    and p: "parse_reference body = Inr citation"
    using query_reference_Return by blast
  from p obtain name rest year others where
    n: "split_ws (splitlines (strip body) ! 4) = name # rest" and
    y: "re_findall_year (splitlines (strip body) ! 3) = year # others" and
    c: "citation = join ''-'' (map capitalize (split ''-'' name)) @ drop (length year - 2) year"
    by (auto simp: parse_reference_Inr)
  have "list_all isdigit year"
    using re_findall_year_elem [of year "splitlines (strip body) ! 3"] y by simp
  then have d: "list_all isdigit (drop (length year - 2) year)"
    by (auto simp: list_all_iff dest: in_set_dropD)
  have s: "list_all
             (\<lambda>seg. length (capitalize seg) = length seg \<and>
                    take 1 (capitalize seg) = map upper (take 1 seg) \<and>
                    drop 1 (capitalize seg) = map lower (drop 1 seg) \<and>
                    list_all (\<lambda>c. \<not> islower c) (take 1 (capitalize seg)) \<and>
                    list_all (\<lambda>c. \<not> isupper c) (drop 1 (capitalize seg)))
             (split ''-'' name)"
    unfolding list_all_iff [of _ "split ''-'' name"] using capitalize_shape by blast
  show ?thesis
    using t n c d s by blast
qed

theorem citation_segments_capitalized_witness:
  "fst (query_reference env_McDonald ''2005ApJ...999..111M'' world0) = Return ''Mcdonald05'' \<and>
   (\<exists>name yy. ''Mcdonald05'' = join ''-'' (map capitalize (split ''-'' name)) @ yy)"
proof -
  have h: "fst (query_reference env_McDonald ''2005ApJ...999..111M'' world0) = Return ''Mcdonald05''"
    by code_simp
  show ?thesis
    using citation_segments_capitalized [OF h] h by blast
qed

section \<open>Properties of get\_object\_types\<close>

lemma reference_title_no_Ref:
  assumes "get (snd r) ''title'' = Some tooltip" "\<not> contains ''Ref'' tooltip"
  shows "reference_title r = Inr (replace '','' '', '' tooltip)"
  using assms by (simp add: reference_title_def join_split_comma contains_Ref_comma)

lemma reference_title_Ref:
  assumes "get (snd r) ''title'' = Some tooltip" "contains ''Ref'' tooltip"
  shows "reference_title r =
           bind_e (index (find_all ''a'' (snd r)) 0) (\<lambda>a.
             case get (snd a) ''href'' of
               None \<Rightarrow> Inl AttributeError
             | Some href \<Rightarrow>
                 Inr (replace ''Ref'' (''{'' @ last (split ''?bibcode='' href) @ ''}'')
                        (replace '','' '', '' tooltip)))"
  using assms
  by (simp add: reference_title_def join_split_comma contains_Ref_comma index_last_def
      split_not_Nil bind_e_def cong: option.case_cong sum.case_cong)

text \<open>
  Claim C4, as amended. For every entry that the extraction yields: when the tooltip has
  no \<^verbatim>\<open>Ref\<close>, the annotation is the tooltip with a space put behind every comma (so
  it is the tooltip itself only when the tooltip has no comma); when it has, the marker
  has a link, and the annotation is that spaced tooltip with every \<^verbatim>\<open>Ref\<close> replaced by
  the braces around what follows the last \<^verbatim>\<open>?bibcode=\<close> of the first link's target.
\<close>

theorem marker_entry_annotation:
  assumes "marker_entry r = Inr (type_name, annotation)"
    and "get (snd r) ''title'' = Some tooltip"
  shows "(\<not> contains ''Ref'' tooltip \<longrightarrow> annotation = replace '','' '', '' tooltip)
       \<and> (\<not> contains ''Ref'' tooltip \<and> \<not> contains '','' tooltip \<longrightarrow> annotation = tooltip)
       \<and> (contains ''Ref'' tooltip \<longrightarrow>
            (\<exists>a as href.
               find_all ''a'' (snd r) = a # as \<and> get (snd a) ''href'' = Some href \<and>
               annotation =
                 replace ''Ref'' (''{'' @ last (split ''?bibcode='' href) @ ''}'')
                   (replace '','' '', '' tooltip)))"
proof -
  from assms(1) have t: "reference_title r = Inr annotation"
    by (auto simp: marker_entry_def bind_e_def split: sum.splits)
  have a: "\<not> contains ''Ref'' tooltip \<longrightarrow> annotation = replace '','' '', '' tooltip"
    using t reference_title_no_Ref [OF assms(2)] by auto
  have b: "\<not> contains ''Ref'' tooltip \<and> \<not> contains '','' tooltip \<longrightarrow> annotation = tooltip"
    using a by (auto simp: replace_absent)
  have c: "contains ''Ref'' tooltip \<longrightarrow>
            (\<exists>a as href.
               find_all ''a'' (snd r) = a # as \<and> get (snd a) ''href'' = Some href \<and>
               annotation =
                 replace ''Ref'' (''{'' @ last (split ''?bibcode='' href) @ ''}'')
                   (replace '','' '', '' tooltip))"
  proof
    assume "contains ''Ref'' tooltip"
    from t reference_title_Ref [OF assms(2) this] show
      "\<exists>a as href.
               find_all ''a'' (snd r) = a # as \<and> get (snd a) ''href'' = Some href \<and>
               annotation =
                 replace ''Ref'' (''{'' @ last (split ''?bibcode='' href) @ ''}'')
                   (replace '','' '', '' tooltip)"
      by (cases "find_all ''a'' (snd r)")
        (auto simp: bind_e_def index_def split: option.splits)
  qed
  show ?thesis
    using a b c by blast
qed

text \<open>
  The claim as stated fails for the tooltip \<^verbatim>\<open>[LSK98],[RRC99]\<close>, which has no
  \<^verbatim>\<open>Ref\<close> and is yielded as \<^verbatim>\<open>[LSK98], [RRC99]\<close>.
\<close>

theorem tooltip_unchanged_counterexample:
  "marker_entry element_Rad = Inr (Str ''Rad'', ''[LSK98], [RRC99]'') \<and>
   get (snd element_Rad) ''title'' = Some ''[LSK98],[RRC99]'' \<and>
   \<not> contains ''Ref'' ''[LSK98],[RRC99]''"
  by code_simp

theorem marker_entry_annotation_witness:
  "''[LSK98], [RRC99]'' = replace '','' '', '' ''[LSK98],[RRC99]''"
proof -
  have e: "marker_entry element_Rad = Inr (Str ''Rad'', ''[LSK98], [RRC99]'')"
    by code_simp
  have t: "get (snd element_Rad) ''title'' = Some ''[LSK98],[RRC99]''"
    by code_simp
  have n: "\<not> contains ''Ref'' ''[LSK98],[RRC99]''"
    by code_simp
  show ?thesis
    using marker_entry_annotation [OF e t] n by blast
qed

text \<open>
  Claim C10. A tooltip with \<^verbatim>\<open>Ref\<close> whose first link has a target without
  \<^verbatim>\<open>?bibcode=\<close> raises nothing: the whole target goes between the braces.
\<close>

theorem href_without_bibcode_parameter:
  assumes "get (snd r) ''title'' = Some tooltip"
    and "contains ''Ref'' tooltip"
    and "find_all ''a'' (snd r) = a # as"
    and "get (snd a) ''href'' = Some href"
    and "\<not> contains ''?bibcode='' href"
  shows "reference_title r =
           Inr (replace ''Ref'' (''{'' @ href @ ''}'') (replace '','' '', '' tooltip))
       \<and> (\<forall>type_name. object_type r = Inr type_name \<longrightarrow>
            marker_entry r =
              Inr (type_name,
                   replace ''Ref'' (''{'' @ href @ ''}'') (replace '','' '', '' tooltip)))"
proof -
  have "reference_title r =
           Inr (replace ''Ref'' (''{'' @ href @ ''}'') (replace '','' '', '' tooltip))"
    using assms reference_title_Ref [OF assms(1,2)] split_no_sep [OF assms(5)]
    by (simp add: bind_e_def index_def)
  then show ?thesis
    by (simp add: marker_entry_def bind_e_def)
qed

theorem href_without_bibcode_parameter_witness:
  "marker_entry element_plain_href =
     Inr (Str ''Y*O'', ''{/simbad/sim-ref/2012ApJ...753L..35B}, HOPS'')"
proof -
  have 1: "get (snd element_plain_href) ''title'' = Some ''Ref,HOPS''"
    by code_simp
  have 2: "contains ''Ref'' ''Ref,HOPS''"
    by code_simp
  have 3: "find_all ''a'' (snd element_plain_href) =
      ([], Tag ''a'' [(''href'', ''/simbad/sim-ref/2012ApJ...753L..35B'')] [NavigableString ''Ref''])
      # []"
    by code_simp
  have 4: "get (snd ([], Tag ''a'' [(''href'', ''/simbad/sim-ref/2012ApJ...753L..35B'')]
      [NavigableString ''Ref''])) ''href'' = Some ''/simbad/sim-ref/2012ApJ...753L..35B''"
    by code_simp
  have 5: "\<not> contains ''?bibcode='' ''/simbad/sim-ref/2012ApJ...753L..35B''"
    by code_simp
  have 6: "object_type element_plain_href = Inr (Str ''Y*O'')"
    by code_simp
  have 7: "replace ''Ref'' (''{'' @ ''/simbad/sim-ref/2012ApJ...753L..35B'' @ ''}'')
      (replace '','' '', '' ''Ref,HOPS'') = ''{/simbad/sim-ref/2012ApJ...753L..35B}, HOPS''"
    by code_simp
  show ?thesis
    using href_without_bibcode_parameter [OF 1 2 3 4 5] 6 7 by simp
qed

lemma parse_reference_malformed:
  assumes "length (splitlines (strip body)) < 5
         \<or> split_ws (splitlines (strip body) ! 4) = []
         \<or> re_findall_year (splitlines (strip body) ! 3) = []"
  shows "parse_reference body = Inl IndexError \<or> parse_reference body = Inl UnicodeDecodeError"
  using assms by (auto simp: parse_reference_def Let_def split: list.splits)

lemma query_reference_Inl:
  assumes "query_bibcode env b = Inr body" "parse_reference body = Inl e"
  shows "fst (query_reference env b w) = Raise e \<or> fst (query_reference env b w) = Hang"
    and "(\<exists>t \<in> set (clock w). throttle_period \<le> t - time_of_last_call w Throttle_query_reference)
         \<Longrightarrow> fst (query_reference env b w) = Raise e"
proof -
  show "fst (query_reference env b w) = Raise e \<or> fst (query_reference env b w) = Hang"
    using assms by (auto simp: query_reference_unfold bind_e_def split: option.splits)
  assume "\<exists>t \<in> set (clock w). throttle_period \<le> t - time_of_last_call w Throttle_query_reference"
  then obtain now later where
    "await (time_of_last_call w Throttle_query_reference) (clock w) = Some (now, later)"
    using await_passes [of "time_of_last_call w Throttle_query_reference" "clock w"] by blast
  then show "fst (query_reference env b w) = Raise e"
    using assms by (simp add: query_reference_unfold bind_e_def)
qed

lemma list_generator_unfold:
  "list_generator env (Generator identifier) w =
     ((case sim_id env identifier of
         Inl e \<Rightarrow> Raise e
       | Inr soup \<Rightarrow>
           (case snd (object_types soup) of
              None \<Rightarrow> Return (fst (object_types soup))
            | Some e \<Rightarrow> Raise e)),
      w\<lparr>events := events w @ [Fetch identifier]\<rparr>)"
  by (auto simp: bind_io_def emit_def lift_io_def raise_io_def return_io_def
      split: sum.splits prod.splits option.splits)

declare list_generator.simps [simp del]

lemma yield_entries_error:
  assumes "r \<in> set rs" "marker_entry r = Inl e"
  shows "snd (yield_entries rs) \<noteq> None"
  using assms by (induction rs) (auto split: sum.splits prod.splits)

lemma yield_entries_ok:
  "snd (yield_entries rs) = None \<Longrightarrow> \<forall>r \<in> set rs. \<exists>x. marker_entry r = Inr x"
  by (induction rs) (auto split: sum.splits prod.splits)

lemma reference_title_no_anchor:
  assumes "get (snd r) ''title'' = Some tooltip" "contains ''Ref'' tooltip"
    "find_all ''a'' (snd r) = []"
  shows "reference_title r = Inl IndexError"
  using reference_title_Ref [OF assms(1,2)] assms(3) by (simp add: bind_e_def index_def)

lemma marker_entry_no_anchor:
  assumes "get (snd r) ''title'' = Some tooltip" "contains ''Ref'' tooltip"
    "find_all ''a'' (snd r) = []"
  shows "\<exists>e. marker_entry r = Inl e"
  using reference_title_no_anchor [OF assms]
  by (cases "object_type r") (auto simp: marker_entry_def bind_e_def)

text \<open>
  Claim C7. A bibliographic response with fewer than five lines, without a token on
  line 4 or without a parenthesised year on line 3 makes \<^verbatim>\<open>query_reference\<close> raise
  (once the clock lets the call through the gate; it never returns a value). The error
  is IndexError, except that it is UnicodeDecodeError when the response has five lines
  and the first token of line 4 has a byte outside ASCII: the token is decoded before the
  year is looked for. A page with fewer than four tables makes the extraction raise
  IndexError, and a marker with \<^verbatim>\<open>Ref\<close> in its tooltip and no link makes it raise.
\<close>

theorem malformed_responses_raise:
  "(query_bibcode env bibcode = Inr body \<and>
      (length (splitlines (strip body)) < 5
       \<or> split_ws (splitlines (strip body) ! 4) = []
       \<or> re_findall_year (splitlines (strip body) ! 3) = []) \<longrightarrow>
      (\<exists>e. (e = IndexError \<or> e = UnicodeDecodeError) \<and>
         parse_reference body = Inl e \<and>
         (\<forall>w. fst (query_reference env bibcode w) = Raise e
              \<or> fst (query_reference env bibcode w) = Hang) \<and>
         (\<forall>w. (\<exists>t \<in> set (clock w).
                 throttle_period \<le> t - time_of_last_call w Throttle_query_reference) \<longrightarrow>
            fst (query_reference env bibcode w) = Raise e)))
 \<and> (query_bibcode env bibcode = Inr body \<and>
      (length (splitlines (strip body)) < 5
       \<or> split_ws (splitlines (strip body) ! 4) = []
       \<or> re_findall_year (splitlines (strip body) ! 3) = [] \<and>
         list_all isascii (hd (split_ws (splitlines (strip body) ! 4)))) \<longrightarrow>
      parse_reference body = Inl IndexError \<and>
      (\<forall>w. fst (query_reference env bibcode w) = Raise IndexError
           \<or> fst (query_reference env bibcode w) = Hang) \<and>
      (\<forall>w. (\<exists>t \<in> set (clock w).
              throttle_period \<le> t - time_of_last_call w Throttle_query_reference) \<longrightarrow>
         fst (query_reference env bibcode w) = Raise IndexError))
 \<and> (query_bibcode env' bibcode' = Inr body' \<and>
      4 < length (splitlines (strip body')) \<and>
      split_ws (splitlines (strip body') ! 4) = name # rest \<and> \<not> list_all isascii name \<longrightarrow>
      parse_reference body' = Inl UnicodeDecodeError \<and>
      (\<forall>w. fst (query_reference env' bibcode' w) = Raise UnicodeDecodeError
           \<or> fst (query_reference env' bibcode' w) = Hang) \<and>
      (\<forall>w. (\<exists>t \<in> set (clock w).
              throttle_period \<le> t - time_of_last_call w Throttle_query_reference) \<longrightarrow>
         fst (query_reference env' bibcode' w) = Raise UnicodeDecodeError))
 \<and> (sim_id env identifier = Inr soup \<and> length (find_all ''table'' soup) < 4 \<longrightarrow>
      object_types soup = ([], Some IndexError) \<and>
      (\<forall>w. fst (list_generator env (Generator identifier) w) = Raise IndexError))
 \<and> (sim_id env identifier' = Inr soup' \<and>
      index (find_all ''table'' soup') 3 = Inr table \<and>
      r \<in> set (find_all_title ''tt'' (snd table)) \<and>
      get (snd r) ''title'' = Some tooltip \<and> contains ''Ref'' tooltip \<and>
      find_all ''a'' (snd r) = [] \<longrightarrow>
      reference_title r = Inl IndexError \<and>
      (\<forall>w. \<exists>e. fst (list_generator env (Generator identifier') w) = Raise e))"
proof (intro conjI impI)
  assume a: "query_bibcode env bibcode = Inr body \<and>
      (length (splitlines (strip body)) < 5
       \<or> split_ws (splitlines (strip body) ! 4) = []
       \<or> re_findall_year (splitlines (strip body) ! 3) = [])"
  then obtain e where e: "e = IndexError \<or> e = UnicodeDecodeError" "parse_reference body = Inl e"
    using parse_reference_malformed [of body] by blast
  with a show "\<exists>e. (e = IndexError \<or> e = UnicodeDecodeError) \<and>
         parse_reference body = Inl e \<and>
         (\<forall>w. fst (query_reference env bibcode w) = Raise e
              \<or> fst (query_reference env bibcode w) = Hang) \<and>
         (\<forall>w. (\<exists>t \<in> set (clock w).
                 throttle_period \<le> t - time_of_last_call w Throttle_query_reference) \<longrightarrow>
            fst (query_reference env bibcode w) = Raise e)"
    using query_reference_Inl [of env bibcode body e] by blast
next
  assume a: "query_bibcode env bibcode = Inr body \<and>
      (length (splitlines (strip body)) < 5
       \<or> split_ws (splitlines (strip body) ! 4) = []
       \<or> re_findall_year (splitlines (strip body) ! 3) = [] \<and>
         list_all isascii (hd (split_ws (splitlines (strip body) ! 4))))"
  then show p: "parse_reference body = Inl IndexError"
    by (auto simp: parse_reference_def Let_def split: list.splits)
  with a show "\<forall>w. fst (query_reference env bibcode w) = Raise IndexError
           \<or> fst (query_reference env bibcode w) = Hang"
    using query_reference_Inl(1) [of env bibcode body IndexError] by blast
  from a p show "\<forall>w. (\<exists>t \<in> set (clock w).
              throttle_period \<le> t - time_of_last_call w Throttle_query_reference) \<longrightarrow>
         fst (query_reference env bibcode w) = Raise IndexError"
    using query_reference_Inl(2)
      [where env = env and b = bibcode and body = body and e = IndexError]
    by blast
next
  assume a: "query_bibcode env' bibcode' = Inr body' \<and>
      4 < length (splitlines (strip body')) \<and>
      split_ws (splitlines (strip body') ! 4) = name # rest \<and> \<not> list_all isascii name"
  then show p: "parse_reference body' = Inl UnicodeDecodeError"
    using parse_reference_not_ascii by blast
  with a show "\<forall>w. fst (query_reference env' bibcode' w) = Raise UnicodeDecodeError
           \<or> fst (query_reference env' bibcode' w) = Hang"
    using query_reference_Inl(1) [of env' bibcode' body' UnicodeDecodeError] by blast
  from a p show "\<forall>w. (\<exists>t \<in> set (clock w).
              throttle_period \<le> t - time_of_last_call w Throttle_query_reference) \<longrightarrow>
         fst (query_reference env' bibcode' w) = Raise UnicodeDecodeError"
    using query_reference_Inl(2)
      [where env = env' and b = bibcode' and body = body' and e = UnicodeDecodeError]
    by blast
next
  assume a: "sim_id env identifier = Inr soup \<and> length (find_all ''table'' soup) < 4"
  then show o: "object_types soup = ([], Some IndexError)"
    by (simp add: object_types_def index_def)
  from a o show "\<forall>w. fst (list_generator env (Generator identifier) w) = Raise IndexError"
    by (simp add: list_generator_unfold)
next
  assume a: "sim_id env identifier' = Inr soup' \<and>
      index (find_all ''table'' soup') 3 = Inr table \<and>
      r \<in> set (find_all_title ''tt'' (snd table)) \<and>
      get (snd r) ''title'' = Some tooltip \<and> contains ''Ref'' tooltip \<and>
      find_all ''a'' (snd r) = []"
  then show "reference_title r = Inl IndexError"
    using reference_title_no_anchor by blast
  from a obtain e where "marker_entry r = Inl e"
    using marker_entry_no_anchor by blast
  with a have "snd (yield_entries (find_all_title ''tt'' (snd table))) \<noteq> None"
    using yield_entries_error by blast
  with a have "snd (object_types soup') \<noteq> None"
    by (simp add: object_types_def)
  with a show "\<forall>w. \<exists>e. fst (list_generator env (Generator identifier') w) = Raise e"
    by (auto simp: list_generator_unfold)
qed

theorem malformed_responses_raise_witness:
  "fst (query_reference env_malformed ''1999AJ....118..983R'' world0) = Raise IndexError \<and>
   fst (query_reference env_Mueller ''2005ApJ...999..222M'' world0) = Raise UnicodeDecodeError \<and>
   fst (list_generator env_malformed (Generator ''few'') world0) = Raise IndexError \<and>
   (\<exists>e. fst (list_generator env_malformed (Generator ''HOPS 370'') world0) = Raise e)"
proof -
  have 1: "query_bibcode env_malformed ''1999AJ....118..983R'' = Inr ''References'' \<and>
      (length (splitlines (strip ''References'')) < 5
       \<or> split_ws (splitlines (strip ''References'') ! 4) = []
       \<or> re_findall_year (splitlines (strip ''References'') ! 3) = [] \<and>
         list_all isascii (hd (split_ws (splitlines (strip ''References'') ! 4))))"
    by code_simp
  have 2: "\<exists>t \<in> set (clock world0).
      throttle_period \<le> t - time_of_last_call world0 Throttle_query_reference"
    by (simp add: world0_def throttle_period_def datetime_min_def)
  have 5: "query_bibcode env_Mueller ''2005ApJ...999..222M'' = Inr response_Mueller \<and>
      4 < length (splitlines (strip response_Mueller)) \<and>
      split_ws (splitlines (strip response_Mueller) ! 4) =
        [CHR ''M'', CHR 0xC3, CHR 0x9C, CHR ''L'', CHR ''L'', CHR ''E'', CHR ''R'']
        # [''A.'', ''and'', ''SMITH'', ''B.''] \<and>
      \<not> list_all isascii [CHR ''M'', CHR 0xC3, CHR 0x9C, CHR ''L'', CHR ''L'', CHR ''E'', CHR ''R'']"
    by code_simp
  have 3: "sim_id env_malformed ''few'' = Inr soup_few_tables \<and>
      length (find_all ''table'' soup_few_tables) < 4"
    by code_simp
  have 4: "sim_id env_malformed ''HOPS 370'' = Inr soup_no_anchor \<and>
      index (find_all ''table'' soup_no_anchor) 3 = Inr (find_all ''table'' soup_no_anchor ! 3) \<and>
      ([NavigableString '' ('', type_object_of ''Y*O'', NavigableString ''), '', marker_Rad,
        NavigableString '' ('', type_object_of ''Rad''], marker_no_anchor)
        \<in> set (find_all_title ''tt'' (snd (find_all ''table'' soup_no_anchor ! 3))) \<and>
      get (snd ([NavigableString '' ('', type_object_of ''Y*O'', NavigableString ''), '',
        marker_Rad, NavigableString '' ('', type_object_of ''Rad''], marker_no_anchor)) ''title''
        = Some ''Ref,HOPS'' \<and>
      contains ''Ref'' ''Ref,HOPS'' \<and>
      find_all ''a'' (snd ([NavigableString '' ('', type_object_of ''Y*O'',
        NavigableString ''), '', marker_Rad, NavigableString '' ('', type_object_of ''Rad''],
        marker_no_anchor)) = []"
    by code_simp
  show ?thesis
    using malformed_responses_raise [of env_malformed "''1999AJ....118..983R''" "''References''"
        env_Mueller "''2005ApJ...999..222M''" response_Mueller
        "[CHR ''M'', CHR 0xC3, CHR 0x9C, CHR ''L'', CHR ''L'', CHR ''E'', CHR ''R'']"
        "[''A.'', ''and'', ''SMITH'', ''B.'']" "''few''" soup_few_tables "''HOPS 370''" soup_no_anchor
        "find_all ''table'' soup_no_anchor ! 3"
        "([NavigableString '' ('', type_object_of ''Y*O'', NavigableString ''), '', marker_Rad,
          NavigableString '' ('', type_object_of ''Rad''], marker_no_anchor)" "''Ref,HOPS''"]
      1 2 3 4 5
    by blast
qed


section \<open>The gates keep their own calls apart\<close>

lemma keeps_return: "keeps P (return_io x)"
  by (simp add: keeps_def return_io_def)

lemma keeps_raise: "keeps P (raise_io e)"
  by (simp add: keeps_def raise_io_def)

lemma keeps_lift: "keeps P (lift_io r)"
  by (cases r) (simp_all add: lift_io_def keeps_return keeps_raise)

lemma keeps_bind:
  assumes "keeps P m" "\<And>x. keeps P (f x)"
  shows "keeps P (bind_io m f)"
  unfolding keeps_def
proof (intro allI impI)
  fix w
  assume "P w"
  with assms(1) have a: "P (snd (m w))"
    by (simp add: keeps_def)
  show "P (snd (bind_io m f w))"
  proof (cases "m w")
    case (Pair r w')
    with a have b: "P w'" by simp
    show ?thesis
    proof (cases r)
      case (Return x)
      with Pair b assms(2) [of x] show ?thesis
        by (simp add: bind_io_def keeps_def)
    next
      case (Raise e)
      with Pair b show ?thesis by (simp add: bind_io_def)
    next
      case Hang
      with Pair b show ?thesis by (simp add: bind_io_def)
    qed
  qed
qed

lemma acquisitions_append:
  "acquisitions self (es @ es') = acquisitions self es @ acquisitions self es'"
  by (induction self es rule: acquisitions.induct) auto

lemma await_Some:
  "await last_call readings = Some (now, later) \<Longrightarrow> throttle_period \<le> now - last_call"
  by (induction readings) (auto split: if_splits)

lemma gate_ok_acquire:
  assumes "gate_ok w" "await (time_of_last_call w self) (clock w) = Some (now, later)"
    and "acquisitions self es = []" "acquisitions other es = []" "self \<noteq> other"
  shows "gate_ok (w\<lparr>clock := later, events := events w @ Acquire self now # es,
           time_of_last_call := (time_of_last_call w)(self := now)\<rparr>)"
proof -
  have p: "throttle_period \<le> now - time_of_last_call w self"
    using assms(2) by (rule await_Some)
  have o: "\<And>t. t = self \<or> t = other"
    using assms(5) by (metis throttle.exhaust)
  show ?thesis
    unfolding gate_ok_def
  proof (intro allI)
    fix t
    show "spaced (acquisitions t (events (w\<lparr>clock := later, events := events w @ Acquire self now # es,
           time_of_last_call := (time_of_last_call w)(self := now)\<rparr>))) \<and>
        (acquisitions t (events (w\<lparr>clock := later, events := events w @ Acquire self now # es,
           time_of_last_call := (time_of_last_call w)(self := now)\<rparr>)) \<noteq> [] \<longrightarrow>
           last (acquisitions t (events (w\<lparr>clock := later, events := events w @ Acquire self now # es,
           time_of_last_call := (time_of_last_call w)(self := now)\<rparr>))) = time_of_last_call (w\<lparr>clock := later, events := events w @ Acquire self now # es,
           time_of_last_call := (time_of_last_call w)(self := now)\<rparr>) t)"
      using assms(1,3,4) p o [of t]
      by (auto simp: gate_ok_def acquisitions_append spaced_def successively_append_iff)
  qed
qed

lemma get_object_types_unfold:
  "get_object_types identifier w =
     (case await (time_of_last_call w Throttle_get_object_types) (clock w) of
        None \<Rightarrow> (Hang, w\<lparr>clock := []\<rparr>)
      | Some (now, later) \<Rightarrow>
          (Return (Generator identifier),
           w\<lparr>clock := later,
             events := events w @ [Acquire Throttle_get_object_types now],
             time_of_last_call := (time_of_last_call w)(Throttle_get_object_types := now)\<rparr>))"
  by (auto simp: get_object_types_def wrapper_def return_io_def split: option.splits)

lemma gate_ok_clock: "gate_ok w \<Longrightarrow> gate_ok (w\<lparr>clock := c\<rparr>)"
  by (simp add: gate_ok_def)

lemma keeps_query_reference: "keeps gate_ok (query_reference env b)"
  unfolding keeps_def
proof (intro allI impI)
  fix w
  assume g: "gate_ok w"
  show "gate_ok (snd (query_reference env b w))"
  proof (cases "await (time_of_last_call w Throttle_query_reference) (clock w)")
    case None
    then show ?thesis
      using g by (simp add: query_reference_unfold gate_ok_clock)
  next
    case (Some p)
    then obtain now later where
      a: "await (time_of_last_call w Throttle_query_reference) (clock w) = Some (now, later)"
      by (cases p) auto
    show ?thesis
      using gate_ok_acquire [OF g a, of "[Lookup b]" Throttle_get_object_types] a
      by (simp add: query_reference_unfold)
  qed
qed

lemma keeps_get_object_types: "keeps gate_ok (get_object_types i)"
  unfolding keeps_def
proof (intro allI impI)
  fix w
  assume g: "gate_ok w"
  show "gate_ok (snd (get_object_types i w))"
  proof (cases "await (time_of_last_call w Throttle_get_object_types) (clock w)")
    case None
    then show ?thesis
      using g by (simp add: get_object_types_unfold gate_ok_clock)
  next
    case (Some p)
    then obtain now later where
      a: "await (time_of_last_call w Throttle_get_object_types) (clock w) = Some (now, later)"
      by (cases p) auto
    show ?thesis
      using gate_ok_acquire [OF g a, of "[]" Throttle_query_reference] a
      by (simp add: get_object_types_unfold)
  qed
qed

lemma keeps_emit_Lookup: "keeps gate_ok (emit (Lookup b))"
  by (simp add: keeps_def emit_def gate_ok_def acquisitions_append)

lemma keeps_emit_Fetch: "keeps gate_ok (emit (Fetch b))"
  by (simp add: keeps_def emit_def gate_ok_def acquisitions_append)

lemma keeps_emit_Region: "keeps gate_ok (emit Region)"
  by (simp add: keeps_def emit_def gate_ok_def acquisitions_append)

lemma keeps_fd_write: "keeps gate_ok (fd_write fd s)"
  by (simp add: keeps_def fd_write_def gate_ok_def)

lemma keeps_fd_open: "keeps gate_ok (fd_open fd)"
  by (simp add: keeps_def fd_open_def gate_ok_def)

lemma keeps_sub_tokens: "keeps gate_ok (sub_tokens env ts)"
  by (induction env ts rule: sub_tokens.induct)
    (auto intro!: keeps_bind keeps_return keeps_query_reference simp: bibcode_replacement_def)

lemma keeps_re_sub: "keeps gate_ok (re_sub env s)"
  by (simp add: re_sub_def keeps_sub_tokens)

lemma keeps_write_all_types: "keeps gate_ok (write_all_types env fd n i rs)"
  by (induction env fd n i rs rule: write_all_types.induct)
    (auto intro!: keeps_bind keeps_return keeps_re_sub keeps_fd_write)

lemma keeps_add_matches: "keeps gate_ok (add_matches env u ms)"
  by (induction env u ms rule: add_matches.induct)
    (auto intro!: keeps_bind keeps_return keeps_query_reference simp: Let_def)

lemma keeps_add_references: "keeps gate_ok (add_references env u rs)"
  by (induction env u rs rule: add_references.induct)
    (auto intro!: keeps_bind keeps_return keeps_add_matches)

lemma keeps_write_lines: "keeps gate_ok (write_lines fd rs)"
  by (induction fd rs rule: write_lines.induct)
    (auto intro!: keeps_bind keeps_return keeps_fd_write)

lemma keeps_list_generator: "keeps gate_ok (list_generator env g)"
  by (cases g) (simp add: keeps_def list_generator_unfold gate_ok_def acquisitions_append)

lemma keeps_generate_report: "keeps gate_ok (generate_report env fs fd)"
  unfolding generate_report_def Let_def
  by (intro keeps_bind keeps_fd_open keeps_fd_write keeps_query_reference keeps_list_generator
      keeps_write_all_types keeps_add_references keeps_write_lines)

lemma keeps_query_coordinates: "keeps gate_ok (query_coordinates env c)"
  unfolding query_coordinates_def
  by (intro keeps_bind keeps_emit_Region keeps_lift keeps_get_object_types keeps_return)

lemma keeps_main: "keeps gate_ok (main env cs)"
  by (induction cs)
    (auto intro!: keeps_bind keeps_return keeps_query_coordinates keeps_generate_report)


section \<open>The order of the remote calls of a report\<close>

lemma emits_bindI:
  assumes m: "emits m P" and f: "\<And>x. emits (f x) (Q' x)"
    and ret: "\<And>x a r b. P (Return x) a \<Longrightarrow> Q' x r b \<Longrightarrow> Q r (a @ b)"
    and rai: "\<And>e a. P (Raise e) a \<Longrightarrow> Q (Raise e) a"
    and han: "\<And>a. P Hang a \<Longrightarrow> Q Hang a"
  shows "emits (bind_io m f) Q"
  unfolding emits_def
proof
  fix w
  from m obtain a where a: "events (snd (m w)) = events w @ a" and p: "P (fst (m w)) a"
    by (auto simp: emits_def)
  show "\<exists>evs. events (snd (bind_io m f w)) = events w @ evs \<and> Q (fst (bind_io m f w)) evs"
  proof (cases "m w")
    case (Pair r w')
    show ?thesis
    proof (cases r)
      case (Return x)
      from f [of x] obtain b where b: "events (snd (f x w')) = events w' @ b"
        and q: "Q' x (fst (f x w')) b"
        by (auto simp: emits_def)
      have "events (snd (bind_io m f w)) = events w @ (a @ b)"
        using Pair Return a b by (simp add: bind_io_def)
      moreover have "Q (fst (bind_io m f w)) (a @ b)"
        using Pair Return p q ret by (simp add: bind_io_def)
      ultimately show ?thesis by blast
    next
      case (Raise e)
      with Pair a p rai show ?thesis
        by (auto simp: bind_io_def)
    next
      case Hang
      with Pair a p han show ?thesis
        by (auto simp: bind_io_def)
    qed
  qed
qed

lemma emits_weaken: "emits m P \<Longrightarrow> (\<And>r evs. P r evs \<Longrightarrow> Q r evs) \<Longrightarrow> emits m Q"
  by (fastforce simp: emits_def)

lemma emits_return: "emits (return_io x) (\<lambda>r evs. r = Return x \<and> evs = [])"
  by (simp add: emits_def return_io_def)

lemma emits_fd_write: "emits (fd_write fd s) (\<lambda>r evs. r = Return () \<and> evs = [])"
  by (simp add: emits_def fd_write_def)

lemma emits_fd_open: "emits (fd_open fd) (\<lambda>r evs. r = Return () \<and> evs = [])"
  by (simp add: emits_def fd_open_def)

lemma emits_query_reference:
  "emits (query_reference env b)
     (\<lambda>r evs. (r = Hang \<and> evs = []) \<or>
        (r \<noteq> Hang \<and> (\<exists>now. evs = [Acquire Throttle_query_reference now, Lookup b])))"
  by (auto simp: emits_def query_reference_unfold split: option.splits sum.splits)

lemma emits_list_generator:
  "emits (list_generator env (Generator i))
     (\<lambda>r evs. evs = [Fetch i] \<and>
        (\<forall>x. r = Return x \<longrightarrow> (\<exists>soup. sim_id env i = Inr soup \<and> object_types soup = (x, None))))"
  by (auto simp: emits_def list_generator_unfold split: sum.splits option.splits)
    (metis prod.collapse)

lemma resolves_bind: "resolves m \<Longrightarrow> (\<And>x. resolves (f x)) \<Longrightarrow> resolves (bind_io m f)"
  unfolding resolves_def by (erule emits_bindI) auto

lemma resolves_return: "resolves (return_io x)"
  unfolding resolves_def by (rule emits_weaken [OF emits_return]) simp

lemma resolves_fd_write: "resolves (fd_write fd s)"
  unfolding resolves_def by (rule emits_weaken [OF emits_fd_write]) simp

lemma resolves_query_reference: "resolves (query_reference env b)"
  unfolding resolves_def by (rule emits_weaken [OF emits_query_reference]) auto

lemma resolves_sub_tokens: "resolves (sub_tokens env ts)"
  by (induction env ts rule: sub_tokens.induct)
    (auto intro!: resolves_bind resolves_return resolves_query_reference
      simp: bibcode_replacement_def)

lemma resolves_write_all_types: "resolves (write_all_types env fd n i rs)"
  by (induction env fd n i rs rule: write_all_types.induct)
    (auto intro!: resolves_bind resolves_return resolves_sub_tokens resolves_fd_write
      simp: re_sub_def)

lemma resolves_add_matches: "resolves (add_matches env u ms)"
  by (induction env u ms rule: add_matches.induct)
    (auto intro!: resolves_bind resolves_return resolves_query_reference simp: Let_def)

lemma resolves_add_references: "resolves (add_references env u rs)"
  by (induction env u rs rule: add_references.induct)
    (auto intro!: resolves_bind resolves_return resolves_add_matches)

lemma resolves_write_lines: "resolves (write_lines fd rs)"
  by (induction fd rs rule: write_lines.induct)
    (auto intro!: resolves_bind resolves_return resolves_fd_write)

lemma emits_after_silent:
  assumes "emits m (\<lambda>r evs. r = Return () \<and> evs = [])" "emits k Q"
  shows "emits (bind_io m (\<lambda>_. k)) Q"
  using assms(1)
proof (rule emits_bindI)
  show "\<And>x. emits k ((\<lambda>_. Q) x)"
    by (rule assms(2))
qed auto

lemma generate_report_emits:
  "emits (generate_report env fs fd)
     (\<lambda>r evs. evs = [] \<or>
        (\<exists>now rest. evs = Acquire Throttle_query_reference now # Lookup (reference fs) # rest \<and>
           (rest = [] \<or> (\<exists>i. all_types fs = Generator i \<and> after_fetch env i rest))))"
proof -
  obtain i where g: "all_types fs = Generator i"
    by (cases "all_types fs") auto
  have tail: "\<And>references. resolves
      (bind_io (fd_write fd ([CHR 0x0A] @ ''All types: '')) (\<lambda>_.
       bind_io (write_all_types env fd (length references) 0 references) (\<lambda>_.
       bind_io (fd_write fd ([CHR 0x0A] @ ''Spectral type: '' @ spectral_type fs @ [CHR 0x0A])) (\<lambda>_.
       bind_io (fd_write fd ([CHR 0x0A] @ ''References:'' @ [CHR 0x0A])) (\<lambda>_.
       bind_io (fd_write fd (reference fs @ '' '' @ url (reference fs) @ [CHR 0x0A])) (\<lambda>_.
       bind_io (add_references env [] references) (\<lambda>unique_references.
       write_lines fd (sort unique_references))))))))"
    by (intro resolves_bind resolves_fd_write resolves_write_all_types resolves_add_references
        resolves_write_lines)
  have fetch: "emits
      (bind_io (list_generator env (all_types fs)) (\<lambda>references.
       bind_io (fd_write fd ([CHR 0x0A] @ ''All types: '')) (\<lambda>_.
       bind_io (write_all_types env fd (length references) 0 references) (\<lambda>_.
       bind_io (fd_write fd ([CHR 0x0A] @ ''Spectral type: '' @ spectral_type fs @ [CHR 0x0A])) (\<lambda>_.
       bind_io (fd_write fd ([CHR 0x0A] @ ''References:'' @ [CHR 0x0A])) (\<lambda>_.
       bind_io (fd_write fd (reference fs @ '' '' @ url (reference fs) @ [CHR 0x0A])) (\<lambda>_.
       bind_io (add_references env [] references) (\<lambda>unique_references.
       write_lines fd (sort unique_references)))))))))
      (\<lambda>r evs. after_fetch env i evs)"
    unfolding g
    by (rule emits_bindI [OF emits_list_generator tail [unfolded resolves_def]])
      (auto simp: after_fetch_def extraction_done_def)
  show ?thesis
    unfolding generate_report_def Let_def
    apply (rule emits_after_silent [OF emits_fd_open])
    apply (rule emits_after_silent [OF emits_fd_write])
    apply (rule emits_bindI [OF emits_query_reference])
        apply (rule emits_after_silent [OF emits_fd_write])
        apply (rule emits_after_silent [OF emits_fd_write])
        apply (rule emits_after_silent [OF emits_fd_write])
        apply (rule fetch)
    using g by auto
qed

section \<open>A run of the script\<close>

text \<open>
  One object, with the example service and clock. The gate of \<^verbatim>\<open>get_object_types\<close> is
  passed at 1 s, when \<^verbatim>\<open>query_coordinates\<close> makes the generator; the gate of
  \<^verbatim>\<open>query_reference\<close> is passed 100 microseconds later, for the primary bibcode; the
  page is fetched only after that lookup.
\<close>

lemma env_HOPS_sel:
  "query_bibcode env_HOPS b = Inr response_Reipurth"
  "sim_id env_HOPS i = Inr soup_HOPS"
  "query_region env_HOPS c = Inr row_HOPS"
  by (simp_all add: env_HOPS_def)

lemma soup_HOPS_types:
  "object_types soup_HOPS =
     ([(Str ''Y*O'', ''{2012ApJ...753L..35B}, HOPS, [MGM2012]''),
       (Str ''Rad'', ''[LSK98], [RRC99]'')], None)"
  by code_simp

lemma scan_HOPS:
  "regexp_scan ''{2012ApJ...753L..35B}, HOPS, [MGM2012]'' =
     Match ''{2012ApJ...753L..35B}'' # map Lit '', HOPS, [MGM2012]''"
  by code_simp

lemma scan_Rad: "regexp_scan ''[LSK98], [RRC99]'' = map Lit ''[LSK98], [RRC99]''"
  by code_simp

lemma strip_braces_HOPS: "strip_chars ''{}'' ''{2012ApJ...753L..35B}'' = ''2012ApJ...753L..35B''"
  by code_simp

declare regexp_scan.simps [simp del]

lemmas run_simps =
  query_coordinates_def generate_report_def bind_io_def emit_def lift_io_def
  return_io_def raise_io_def get_object_types_unfold query_reference_unfold
  list_generator_unfold datetime_min_def throttle_period_def fd_open_def fd_write_def
  re_sub_def bibcode_replacement_def re_findall_def bind_e_def format_type_def url_def Let_def

lemma main_HOPS_events:
  "events (snd (main env_HOPS [c] world0)) =
     [Region, Acquire Throttle_get_object_types 1000000,
      Acquire Throttle_query_reference 1000100, Lookup ''1999AJ....118..983R'',
      Fetch ''HOPS 370'',
      Acquire Throttle_query_reference 1300100, Lookup ''2012ApJ...753L..35B'',
      Acquire Throttle_query_reference 1600100, Lookup ''2012ApJ...753L..35B'']"
  by (simp add: run_simps env_HOPS_sel row_HOPS_def world0_def soup_HOPS_types scan_HOPS
      scan_Rad strip_braces_HOPS parse_reference_Reipurth)

text \<open>
  Claim C1, as amended. From the start of the process and for each of the two decorated
  functions taken alone, the times at which its gate lets successive calls through are
  at least 0.25 s apart, whatever the clock reads and whatever the service answers.
\<close>

theorem throttle_spacing_per_operation:
  assumes "events w = []"
  shows "spaced (acquisitions self (events (snd (main env coords w))))"
proof -
  have "gate_ok w"
    using assms by (simp add: gate_ok_def spaced_def)
  then have "gate_ok (snd (main env coords w))"
    using keeps_main by (simp add: keeps_def)
  then show ?thesis
    by (simp add: gate_ok_def)
qed

theorem throttle_spacing_per_operation_witness:
  "spaced (acquisitions Throttle_query_reference
     (events (snd (main env_HOPS [coords_VLA7] world0))))"
proof -
  have "events world0 = []"
    by (simp add: world0_def)
  then show ?thesis
    by (rule throttle_spacing_per_operation)
qed

text \<open>
  The claim as stated fails across the two functions: each has a gate of its own, and in
  the run above the acquisitions of \<^verbatim>\<open>get_object_types\<close> and of \<^verbatim>\<open>query_reference\<close> are
  100 microseconds apart.
\<close>

theorem throttle_spacing_counterexample:
  "all_acquisitions (events (snd (main env_HOPS [coords_VLA7] world0))) =
     [1000000, 1000100, 1300100, 1600100] \<and>
   \<not> spaced (all_acquisitions (events (snd (main env_HOPS [coords_VLA7] world0))))"
  by (simp only: main_HOPS_events) (simp add: spaced_def throttle_period_def)

text \<open>
  Claim C2, as amended. The events that a report adds are, in this order: the resolution
  of the primary bibcode (its gate and its lookup), then the fetch of the page, then
  gates and lookups of citation resolutions only. So the primary bibcode is resolved
  before the page is fetched, and a later resolution happens only after the fetch, and
  only when the generator has gone through all markers without raising.
\<close>

theorem extraction_precedes_annotation_resolutions:
  "\<exists>pre fetch post.
     events (snd (generate_report env fs fd w)) = events w @ pre @ fetch @ post \<and>
     (pre = [] \<or> (\<exists>now. pre = [Acquire Throttle_query_reference now, Lookup (reference fs)])) \<and>
     (fetch = [] \<or> (pre \<noteq> [] \<and> (\<exists>i. all_types fs = Generator i \<and> fetch = [Fetch i]))) \<and>
     list_all resolution_event post \<and>
     (post = [] \<or> (fetch \<noteq> [] \<and> (\<exists>i. all_types fs = Generator i \<and> extraction_done env i)))"
proof -
  from generate_report_emits [of env fs fd] obtain evs where
    e: "events (snd (generate_report env fs fd w)) = events w @ evs" and
    q: "evs = [] \<or>
        (\<exists>now rest. evs = Acquire Throttle_query_reference now # Lookup (reference fs) # rest \<and>
           (rest = [] \<or> (\<exists>i. all_types fs = Generator i \<and> after_fetch env i rest)))"
    unfolding emits_def by blast
  show ?thesis
  proof (cases "evs = []")
    case True
    with e show ?thesis
      by (intro exI [of _ "[]"]) simp
  next
    case False
    with q obtain now rest where
      r: "evs = Acquire Throttle_query_reference now # Lookup (reference fs) # rest" and
      s: "rest = [] \<or> (\<exists>i. all_types fs = Generator i \<and> after_fetch env i rest)"
      by blast
    show ?thesis
    proof (cases "rest = []")
      case True
      with e r show ?thesis
        by (intro exI [of _ "[Acquire Throttle_query_reference now, Lookup (reference fs)]"]
            exI [of _ "[]"]) simp
    next
      case False
      with s obtain i post where i: "all_types fs = Generator i" and
        p: "rest = Fetch i # post" "list_all resolution_event post"
        "post \<noteq> [] \<longrightarrow> extraction_done env i"
        unfolding after_fetch_def by blast
      with e r show ?thesis
        by (intro exI [of _ "[Acquire Throttle_query_reference now, Lookup (reference fs)]"]
            exI [of _ "[Fetch i]"] exI [of _ post]) auto
    qed
  qed
qed

text \<open>
  The claim as stated fails at the first resolution: in the run above the lookup of the
  primary bibcode comes before the fetch of the page.
\<close>

theorem extraction_before_resolution_counterexample:
  "events (snd (main env_HOPS [coords_VLA7] world0)) =
     [Region, Acquire Throttle_get_object_types 1000000,
      Acquire Throttle_query_reference 1000100, Lookup ''1999AJ....118..983R'',
      Fetch ''HOPS 370'',
      Acquire Throttle_query_reference 1300100, Lookup ''2012ApJ...753L..35B'',
      Acquire Throttle_query_reference 1600100, Lookup ''2012ApJ...753L..35B'']"
  by (rule main_HOPS_events)

section \<open>Properties of get\_output\_filename\<close>

lemma isdigit_digit: "k < 10 \<Longrightarrow> isdigit (digit k)"
proof -
  assume "k < 10"
  then have "k \<in> {0, 1, 2, 3, 4, 5, 6, 7, 8, 9}"
    by auto
  then show ?thesis
    by (auto simp: isdigit_def digit_def digits_def)
qed

lemma str_nat_one: "n < 10 \<Longrightarrow> str_nat n = [digit n]"
  by (simp add: str_nat.simps [of n] digit_def)

lemma str_nat_two: "10 \<le> n \<Longrightarrow> n < 100 \<Longrightarrow> str_nat n = [digit (n div 10), digit (n mod 10)]"
  using str_nat.simps [of n] str_nat_one [of "n div 10"] by (simp add: digit_def)

lemma zfill_two: "n < 100 \<Longrightarrow> zfill 2 (str_nat n) = two_digits n"
proof (cases "n < 10")
  case True
  then show ?thesis
    by (simp add: zfill_def str_nat_one two_digits_def digit_def digits_def)
next
  case False
  assume "n < 100"
  with False show ?thesis
    by (simp add: zfill_def str_nat_two two_digits_def)
qed

lemma str_nat_three:
  assumes "100 \<le> n" "n < 1000"
  shows "str_nat n = [digit (n div 100), digit (n div 10 mod 10), digit (n mod 10)]"
proof -
  have a: "10 \<le> n div 10" "n div 10 < 100"
    using assms by auto
  have b: "n div 10 div 10 = n div 100"
    by (simp add: div_mult2_eq [symmetric])
  show ?thesis
    using str_nat.simps [of n] str_nat_two [OF a] assms b by (simp add: digit_def)
qed

lemma zfill_three:
  assumes n: "n < 1000"
  shows "zfill 3 (str_nat n) = [digit (n div 100), digit (n div 10 mod 10), digit (n mod 10)]"
proof -
  consider "n < 10" | "10 \<le> n" "n < 100" | "100 \<le> n"
    by linarith
  then show ?thesis
  proof cases
    case 1
    then have "zfill 3 (str_nat n) = [CHR ''0'', CHR ''0'', digit n]"
      by (simp add: zfill_def str_nat_one numeral_2_eq_2)
    with 1 show ?thesis
      by (simp add: digit_def digits_def)
  next
    case 2
    then have "zfill 3 (str_nat n) = [CHR ''0'', digit (n div 10), digit (n mod 10)]"
      by (simp add: zfill_def str_nat_two)
    with 2 show ?thesis
      by (simp add: digit_def digits_def)
  next
    case 3
    with n show ?thesis
      by (simp add: zfill_def str_nat_three)
  qed
qed

lemma length_str_nat_two: "n < 100 \<Longrightarrow> length (str_nat n) \<le> 2"
  by (cases "n < 10") (simp_all add: str_nat_one str_nat_two)

lemma round_half_even_near:
  assumes "\<bar>q - of_int k\<bar> < 1 / 2"
  shows "round_half_even q = k"
proof (cases "of_int k \<le> q")
  case True
  with assms have "\<lfloor>q\<rfloor> = k"
    by (intro floor_unique) auto
  with assms True show ?thesis
    by (simp add: round_half_even_def Let_def)
next
  case False
  with assms have f: "\<lfloor>q\<rfloor> = k - 1"
    by (intro floor_unique) auto
  with assms False show ?thesis
    by (auto simp: round_half_even_def Let_def)
qed

lemma round_half_even_bounds:
  assumes "0 \<le> q" "q < of_int b"
  shows "0 \<le> round_half_even q \<and> round_half_even q \<le> b"
proof -
  have "0 \<le> \<lfloor>q\<rfloor>" "\<lfloor>q\<rfloor> < b"
    using assms by (auto simp: floor_less_iff)
  then show ?thesis
    by (auto simp: round_half_even_def Let_def)
qed

lemma decimal_places:
  fixes n :: nat
  shows "n div 1000 div 10 = n div 10000"
    and "n mod 1000 div 100 = n div 100 mod 10"
    and "n mod 1000 div 10 mod 10 = n div 10 mod 10"
    and "n mod 1000 mod 10 = n mod 10"
proof -
  show "n div 1000 div 10 = n div 10000"
    by (simp add: div_mult2_eq [symmetric])
  have a: "n mod 1000 = 100 * (n div 100 mod 10) + n mod 100"
    using mod_mult2_eq [of n 100 10] by simp
  show "n mod 1000 div 100 = n div 100 mod 10"
    unfolding a by simp
  have b: "n mod 1000 = 10 * (n div 10 mod 100) + n mod 10"
    using mod_mult2_eq [of n 10 100] by simp
  have "n mod 1000 div 10 = n div 10 mod 100"
    unfolding b by simp
  then show "n mod 1000 div 10 mod 10 = n div 10 mod 10"
    by (simp add: mod_mod_cancel)
  show "n mod 1000 mod 10 = n mod 10"
    by (simp add: mod_mod_cancel)
qed

lemma zfill_prefix:
  assumes "length a = 1 \<or> length a = 2" "length t = 3"
  shows "zfill 6 (a @ ''.'' @ t) = zfill 2 a @ ''.'' @ t"
  using assms by (auto simp: zfill_def)

lemma zfill_seconds:
  assumes "n < 100000"
  shows "zfill 6 (str_nat (n div 1000) @ ''.'' @ zfill 3 (str_nat (n mod 1000))) = seconds_field n"
proof -
  have a: "n div 1000 < 100"
    using assms by simp
  have b: "n mod 1000 < 1000"
    by simp
  have l: "length (str_nat (n div 1000)) = 1 \<or> length (str_nat (n div 1000)) = 2"
    using a by (cases "n div 1000 < 10") (simp_all add: str_nat_one str_nat_two)
  have "zfill 6 (str_nat (n div 1000) @ ''.'' @ zfill 3 (str_nat (n mod 1000))) =
      zfill 2 (str_nat (n div 1000)) @ ''.'' @ zfill 3 (str_nat (n mod 1000))"
    using l by (intro zfill_prefix) (simp_all add: zfill_three [OF b])
  then show ?thesis
    by (simp add: zfill_two [OF a] zfill_three [OF b] two_digits_def seconds_field_def
        decimal_places)
qed

lemma format_06_3f_field:
  assumes "0 \<le> x" "x < 60"
  shows "format_06_3f x = seconds_field (milliseconds x)"
proof -
  have "0 \<le> x * 1000" "x * 1000 < of_int 60000"
    using assms by auto
  then have "0 \<le> round_half_even (x * 1000) \<and> round_half_even (x * 1000) \<le> 60000"
    by (rule round_half_even_bounds)
  then have "nat (round_half_even (x * 1000)) < 100000"
    by linarith
  then show ?thesis
    using assms(1) zfill_seconds [of "nat (round_half_even (x * 1000))"]
    by (simp add: format_06_3f_def milliseconds_def Let_def abs_of_nonneg)
qed

lemma format_02_two: "0 \<le> i \<Longrightarrow> i < 100 \<Longrightarrow> format_02 i = two_digits (nat i)"
  by (simp add: format_02_def zfill_two)

lemma is_two_digits: "n < 100 \<Longrightarrow> is_two_digits (two_digits n)"
  by (simp add: is_two_digits_def two_digits_def isdigit_digit)

lemma is_seconds: "n < 100000 \<Longrightarrow> is_seconds (seconds_field n)"
  by (simp add: is_seconds_def seconds_field_def isdigit_digit)

lemma milliseconds_bound: "\<bar>x\<bar> < 60 \<Longrightarrow> milliseconds x < 100000"
proof -
  assume "\<bar>x\<bar> < 60"
  then have "0 \<le> \<bar>x\<bar> * 1000" "\<bar>x\<bar> * 1000 < of_int 60000"
    by auto
  then have "0 \<le> round_half_even (\<bar>x\<bar> * 1000) \<and> round_half_even (\<bar>x\<bar> * 1000) \<le> 60000"
    by (rule round_half_even_bounds)
  then show ?thesis
    unfolding milliseconds_def by linarith
qed

lemma milliseconds_near:
  assumes "\<bar>\<bar>x\<bar> - of_nat k / 1000\<bar> < 1 / 2000"
  shows "milliseconds x = k"
proof -
  have "\<bar>x\<bar> * 1000 - of_int (int k) = (\<bar>x\<bar> - of_nat k / 1000) * 1000"
    by (simp add: algebra_simps)
  then have "\<bar>\<bar>x\<bar> * 1000 - of_int (int k)\<bar> = \<bar>\<bar>x\<bar> - of_nat k / 1000\<bar> * 1000"
    by (simp only: abs_mult)
  also have "\<dots> < 1 / 2"
    using assms by simp
  finally have "round_half_even (\<bar>x\<bar> * 1000) = int k"
    by (rule round_half_even_near)
  then show ?thesis
    by (simp add: milliseconds_def)
qed

lemma fmt_fields:
  assumes "0 \<le> a" "a < 100" "0 \<le> b" "b < 100" "0 \<le> x" "x < 60"
  shows "fmt (trunc a) (trunc b) x =
           two_digits (nat \<lfloor>a\<rfloor>) @ two_digits (nat \<lfloor>b\<rfloor>) @ seconds_field (milliseconds x)"
proof -
  have "0 \<le> \<lfloor>a\<rfloor>" "\<lfloor>a\<rfloor> < 100" "0 \<le> \<lfloor>b\<rfloor>" "\<lfloor>b\<rfloor> < 100"
    using assms by (auto simp: floor_less_iff)
  then show ?thesis
    using assms by (simp add: fmt_def trunc_def format_02_two format_06_3f_field)
qed

text \<open>
  For coordinates in range (hours below 24, minutes and seconds below 60, degrees up to
  90) the file name is \<^verbatim>\<open>J\<close>, the hours and the minutes in two digits, the seconds
  rounded to milliseconds in six characters, the sign, which is \<^verbatim>\<open>+\<close> exactly when the
  declination is at least 0, the degrees, minutes and seconds of the declination in the
  same way, and \<^verbatim>\<open>.txt\<close>: 26 characters. The seconds are rounded on their own, so the
  field of the seconds can read \<^verbatim>\<open>60.000\<close>.
\<close>

lemma get_output_filename_fields:
  assumes ra: "ra_hms c = (h, m, s)" and de: "dec_dms c = (d, dm, ds)"
    and h: "0 \<le> h" "h < 24" and m: "0 \<le> m" "m < 60" and s: "0 \<le> s" "s < 60"
    and d: "\<bar>d\<bar> \<le> 90" and dm: "\<bar>dm\<bar> < 60" and ds: "\<bar>ds\<bar> < 60"
  shows "get_output_filename c =
           ''J'' @ two_digits (nat \<lfloor>h\<rfloor>) @ two_digits (nat \<lfloor>m\<rfloor>) @ seconds_field (milliseconds s)
           @ [if 0 \<le> dec_deg c then CHR ''+'' else CHR ''-'']
           @ two_digits (nat \<lfloor>\<bar>d\<bar>\<rfloor>) @ two_digits (nat \<lfloor>\<bar>dm\<bar>\<rfloor>)
           @ seconds_field (milliseconds ds) @ ''.txt''"
    and "is_two_digits (two_digits (nat \<lfloor>h\<rfloor>))" "is_two_digits (two_digits (nat \<lfloor>m\<rfloor>))"
    and "is_seconds (seconds_field (milliseconds s))"
    and "is_two_digits (two_digits (nat \<lfloor>\<bar>d\<bar>\<rfloor>))" "is_two_digits (two_digits (nat \<lfloor>\<bar>dm\<bar>\<rfloor>))"
    and "is_seconds (seconds_field (milliseconds ds))"
    and "length (get_output_filename c) = 26"
proof -
  have r: "fmt (trunc h) (trunc m) s =
      two_digits (nat \<lfloor>h\<rfloor>) @ two_digits (nat \<lfloor>m\<rfloor>) @ seconds_field (milliseconds s)"
    using h m s by (intro fmt_fields) auto
  have "fmt (trunc \<bar>d\<bar>) (trunc \<bar>dm\<bar>) \<bar>ds\<bar> =
      two_digits (nat \<lfloor>\<bar>d\<bar>\<rfloor>) @ two_digits (nat \<lfloor>\<bar>dm\<bar>\<rfloor>) @ seconds_field (milliseconds \<bar>ds\<bar>)"
    using d dm ds by (intro fmt_fields) auto
  then have e: "fmt (trunc \<bar>d\<bar>) (trunc \<bar>dm\<bar>) \<bar>ds\<bar> =
      two_digits (nat \<lfloor>\<bar>d\<bar>\<rfloor>) @ two_digits (nat \<lfloor>\<bar>dm\<bar>\<rfloor>) @ seconds_field (milliseconds ds)"
    by (simp add: milliseconds_def)
  show name: "get_output_filename c =
           ''J'' @ two_digits (nat \<lfloor>h\<rfloor>) @ two_digits (nat \<lfloor>m\<rfloor>) @ seconds_field (milliseconds s)
           @ [if 0 \<le> dec_deg c then CHR ''+'' else CHR ''-'']
           @ two_digits (nat \<lfloor>\<bar>d\<bar>\<rfloor>) @ two_digits (nat \<lfloor>\<bar>dm\<bar>\<rfloor>)
           @ seconds_field (milliseconds ds) @ ''.txt''"
    using ra de r e by (simp add: get_output_filename_def get_output_filename_ext_def Let_def)
  have "nat \<lfloor>h\<rfloor> < 100" "nat \<lfloor>m\<rfloor> < 100" "nat \<lfloor>\<bar>d\<bar>\<rfloor> < 100" "nat \<lfloor>\<bar>dm\<bar>\<rfloor> < 100"
    using h m d dm by (auto simp: floor_less_iff nat_less_iff)
  then show "is_two_digits (two_digits (nat \<lfloor>h\<rfloor>))" "is_two_digits (two_digits (nat \<lfloor>m\<rfloor>))"
    "is_two_digits (two_digits (nat \<lfloor>\<bar>d\<bar>\<rfloor>))" "is_two_digits (two_digits (nat \<lfloor>\<bar>dm\<bar>\<rfloor>))"
    by (simp_all add: is_two_digits)
  show "is_seconds (seconds_field (milliseconds s))" "is_seconds (seconds_field (milliseconds ds))"
    using s ds by (simp_all add: is_seconds milliseconds_bound)
  show "length (get_output_filename c) = 26"
    unfolding name by (simp add: two_digits_def seconds_field_def)
qed

text \<open>
  The first example of the tests, \<^verbatim>\<open>05 35 24.550 -05 06 59.00\<close>, for all floats within
  half a millisecond of the seconds that were written.
\<close>

lemma get_output_filename_VLA7:
  assumes "ra_hms c = (5, 35, s)" "dec_dms c = (- 5, - 6, ds)" "dec_deg c < 0"
    "\<bar>s - 2455 / 100\<bar> < 1 / 2000" "\<bar>ds + 59\<bar> < 1 / 2000"
  shows "get_output_filename c = ''J053524.550-050659.000.txt''"
proof -
  have b: "0 \<le> s" "s < 60" "\<bar>ds\<bar> < 60"
    using assms(4,5) by (auto simp: abs_if split: if_splits)
  have "milliseconds s = 24550"
    using assms(4) b by (intro milliseconds_near) (simp add: abs_of_nonneg)
  moreover have "milliseconds ds = 59000"
    using assms(5) by (intro milliseconds_near) (auto simp: abs_if split: if_splits)
  ultimately show ?thesis
    using get_output_filename_fields(1) [OF assms(1,2)] b assms(3)
    by (simp add: two_digits_def seconds_field_def digit_def digits_def)
qed



section \<open>Bibcodes that the pattern does not match\<close>

lemma env_AA_sel:
  "query_bibcode env_AA b =
     (if b = ''2005A&A...432..161G'' then Inr response_Goddi else Inr response_Reipurth)"
  "sim_id env_AA i = Inr soup_AA"
  "query_region env_AA c = Inr row_HOPS"
  by (simp_all add: env_AA_def)

lemma soup_AA_types:
  "object_types soup_AA =
     ([(Str ''Mas'', ''{2005A&A...432..161G}, [MGM2012]''),
       (Str ''Y*O'', ''{1999AJ....118..983R}'')], None)"
  by code_simp

lemma scan_AA:
  "regexp_scan ''{2005A&A...432..161G}, [MGM2012]'' = map Lit ''{2005A&A...432..161G}, [MGM2012]''"
  by code_simp

lemma scan_Reipurth: "regexp_scan ''{1999AJ....118..983R}'' = [Match ''{1999AJ....118..983R}'']"
  by code_simp

lemma strip_braces_Reipurth: "strip_chars ''{}'' ''{1999AJ....118..983R}'' = ''1999AJ....118..983R''"
  by code_simp

lemma parse_reference_Goddi: "parse_reference response_Goddi = Inr ''Goddi05''"
  by code_simp

lemma sub_tokens_Lit: "sub_tokens env (map Lit s) w = (Return s, w)"
  by (induction s) (simp_all add: return_io_def bind_io_def)

text \<open>
  Claim C3 fails on a bibcode with \<^verbatim>\<open>&\<close>. The extraction yields the annotation
  \<^verbatim>\<open>{2005A&A...432..161G}, [MGM2012]\<close>; \<^verbatim>\<open>&\<close> is no character of \<^verbatim>\<open>[\w.]\<close>, the
  pattern matches nowhere, and \<^verbatim>\<open>re.sub\<close> returns the annotation as it is, without a
  lookup, although the service resolves the code to \<^verbatim>\<open>Goddi05\<close>. The code in the second
  annotation is substituted.
\<close>

theorem ampersand_bibcode_not_substituted:
  "object_types soup_AA =
     ([(Str ''Mas'', ''{2005A&A...432..161G}, [MGM2012]''),
       (Str ''Y*O'', ''{1999AJ....118..983R}'')], None) \<and>
   (\<forall>w. re_sub env_AA ''{2005A&A...432..161G}, [MGM2012]'' w =
        (Return ''{2005A&A...432..161G}, [MGM2012]'', w)) \<and>
   fst (re_sub env_AA ''{1999AJ....118..983R}'' world0) = Return ''Reipurth99'' \<and>
   fst (query_reference env_AA ''2005A&A...432..161G'' world0) = Return ''Goddi05''"
proof -
  have a: "\<forall>w. re_sub env_AA ''{2005A&A...432..161G}, [MGM2012]'' w =
        (Return ''{2005A&A...432..161G}, [MGM2012]'', w)"
    by (simp only: re_sub_def scan_AA sub_tokens_Lit) simp
  have b: "fst (re_sub env_AA ''{1999AJ....118..983R}'' world0) = Return ''Reipurth99''"
    by (simp add: re_sub_def scan_Reipurth bibcode_replacement_def strip_braces_Reipurth
        query_reference_unfold env_AA_sel bind_e_def parse_reference_Reipurth world0_def
        datetime_min_def throttle_period_def bind_io_def return_io_def)
  have c: "fst (query_reference env_AA ''2005A&A...432..161G'' world0) = Return ''Goddi05''"
    by (simp add: query_reference_unfold env_AA_sel bind_e_def parse_reference_Goddi world0_def
        datetime_min_def throttle_period_def)
  show ?thesis
    using soup_AA_types a b c by blast
qed

text \<open>
  Claim C6 fails on the same bibcode: \<^verbatim>\<open>re.findall\<close> finds nothing in the first
  annotation, so the set of reference lines holds the line of the second code only.
\<close>

theorem ampersand_bibcode_not_listed:
  "re_findall ''{2005A&A...432..161G}, [MGM2012]'' = [] \<and>
   fst (add_references env_AA [] (fst (object_types soup_AA)) world0) =
     Return [''Reipurth99 http://simbad.u-strasbg.fr/simbad/sim-ref?bibcode=1999AJ....118..983R'']"
  by (simp add: soup_AA_types re_findall_def scan_AA scan_Reipurth strip_braces_Reipurth
      query_reference_unfold env_AA_sel bind_e_def parse_reference_Reipurth world0_def
      datetime_min_def throttle_period_def bind_io_def return_io_def url_def Let_def)
end
